theory Spec2Isabelle
  imports Main
begin

section \<open>Data model\<close>

text \<open>
  The portal keeps three tables: org units, offices and users. A row is a record whose
  nullable columns are options. The permission helper (helpers/permissions) and the org
  unit routes (controllers/org-units.js) read and write these tables through Bookshelf
  models; the tables are modelled as lists of rows, the order being the order in which a
  query returns them.
\<close>

text \<open>
  JavaScript errors as values: \<open>new Error(msg)\<close> and
  \<open>new UserError(msg, status, err)\<close>. The wrapped cause is not kept.
\<close>

datatype error = Error string | UserError string nat

record office =
  office_id :: nat
  userID :: nat
  parentOrgID :: "nat option"
  parentOfficeID :: "nat option"
  office_parentID :: "nat option"
  roles :: "string list option"

record orgunit =
  unit_id :: nat
  code :: "string option"
  name :: "string option"
  unit_type :: "string option"
  unit_parentID :: "nat option"
  parentPath :: "string option"
  lft :: "nat option"
  rgt :: "nat option"
  venueType :: "string option"
  location :: "string option"
  defDoc :: "string option"
  website :: "string option"

record user =
  user_id :: nat
  orgUnit :: "nat option"

record db =
  offices :: "office list"
  units :: "orgunit list"
  users :: "user list"

text \<open>
  The officer argument of the permission helper is duck typed: a user id, a user model
  (anything with an \<open>id\<close>), or an already resolved collection of offices (anything with
  a \<open>filter\<close> method).
\<close>

datatype officer = OfficerID nat | OfficerModel nat | Resolved "office list"

text \<open>The unit argument of \<open>hasOverUnit\<close>: absent, an id, or a fetched model.\<close>

datatype unit_arg = NoUnit | UnitID nat | UnitModel orgunit

text \<open>The office argument of \<open>hasOverOffice\<close>: an id or a fetched model.\<close>

datatype office_arg = OfficeID nat | OfficeModel office

section \<open>Persistence layer\<close>

text \<open>
  \<open>new Model({ id: i }).fetch({ require: true })\<close>: the first row with that id; the
  promise is rejected when there is none.
\<close>

definition fetch_unit :: "db \<Rightarrow> nat \<Rightarrow> orgunit option" where
  "fetch_unit st i = find (\<lambda>u. unit_id u = i) (units st)"

definition fetch_office :: "db \<Rightarrow> nat \<Rightarrow> office option" where
  "fetch_office st i = find (\<lambda>c. office_id c = i) (offices st)"

text \<open>
  \<open>new Offices().where('userID', u).fetchAll({ require: true })\<close>: with \<open>require\<close>,
  an empty result rejects the promise.
\<close>

definition fetchAll_offices :: "db \<Rightarrow> nat \<Rightarrow> office list option" where
  "fetchAll_offices st u =
     (let rows = filter (\<lambda>c. userID c = u) (offices st)
      in if rows = [] then None else Some rows)"

section \<open>JavaScript values\<close>

text \<open>
  A JavaScript number as the routes see it: an integer or \<open>NaN\<close>. The strict
  inequality \<open>!==\<close> holds whenever one side is \<open>NaN\<close>, also for \<open>NaN !== NaN\<close>.
\<close>

datatype jsnum = NaN | Num int

fun strict_neq :: "jsnum \<Rightarrow> jsnum \<Rightarrow> bool" where
  "strict_neq (Num a) (Num b) = (a \<noteq> b)"
| "strict_neq _ _ = True"

definition is_space :: "char \<Rightarrow> bool" where
  "is_space c = (c \<in> set [CHR '' '', CHR 0x09, CHR 0x0A, CHR 0x0B, CHR 0x0C, CHR 0x0D])"

definition dec_val :: "char \<Rightarrow> nat option" where
  "dec_val c = map_of (zip ''0123456789'' [0 ..< 10]) c"

definition hex_val :: "char \<Rightarrow> nat option" where
  "hex_val c =
     map_of (zip ''0123456789abcdefABCDEF'' ([0 ..< 16] @ [10 ..< 16])) c"

text \<open>
  The digits at the front of a string, read in the given radix; \<open>None\<close> while no digit
  has been read.
\<close>

fun read_digits :: "nat \<Rightarrow> (char \<Rightarrow> nat option) \<Rightarrow> string \<Rightarrow> nat option \<Rightarrow> nat option" where
  "read_digits radix val [] acc = acc"
| "read_digits radix val (c # cs) acc =
     (case val c of
        None \<Rightarrow> acc
      | Some d \<Rightarrow>
          read_digits radix val cs
            (Some (radix * (case acc of None \<Rightarrow> 0 | Some a \<Rightarrow> a) + d)))"

text \<open>
  \<open>Number.parseInt(s)\<close> with no radix: leading white space and a sign are skipped, a
  \<open>0x\<close> prefix selects radix 16, the longest run of digits is read, and the result is
  \<open>NaN\<close> when there is no digit.
\<close>

definition parseInt :: "string \<Rightarrow> jsnum" where
  "parseInt s =
     (let s1 = dropWhile is_space s;
          neg = (take 1 s1 = ''-'');
          s2 = (if take 1 s1 = ''-'' \<or> take 1 s1 = ''+'' then drop 1 s1 else s1);
          hex = (take 2 s2 = ''0x'' \<or> take 2 s2 = ''0X'');
          ds = (if hex then read_digits 16 hex_val (drop 2 s2) None
                else read_digits 10 dec_val s2 None)
      in case ds of
           None \<Rightarrow> NaN
         | Some n \<Rightarrow> Num (if neg then - int n else int n))"

text \<open>A number printed by string concatenation (\<open>'' + n\<close>), for a natural number.\<close>

fun show_nat :: "nat \<Rightarrow> string" where
  "show_nat n =
     (if n < 10 then [''0123456789'' ! n]
      else show_nat (n div 10) @ [''0123456789'' ! (n mod 10)])"

declare show_nat.simps [simp del]

text \<open>
  A nullable string in a concatenation: \<open>null + '.'\<close> is \<open>'null.'\<close>.
\<close>

definition js_str :: "string option \<Rightarrow> string" where
  "js_str v = (case v of None \<Rightarrow> ''null'' | Some s \<Rightarrow> s)"

text \<open>\<open>toLowerCase\<close> on the ASCII letters.\<close>

definition lower_char :: "char \<Rightarrow> char" where
  "lower_char c =
     (case map_of (zip ''ABCDEFGHIJKLMNOPQRSTUVWXYZ'' ''abcdefghijklmnopqrstuvwxyz'') c of
        None \<Rightarrow> c
      | Some l \<Rightarrow> l)"

definition toLowerCase :: "string \<Rightarrow> string" where
  "toLowerCase s = map lower_char s"


text \<open>\<open>xs.indexOf(x)\<close>: the first position of \<open>x\<close>, or -1.\<close>

fun indexOf :: "'a list \<Rightarrow> 'a \<Rightarrow> int" where
  "indexOf [] x = - 1"
| "indexOf (y # ys) x =
     (if y = x then 0
      else (let r = indexOf ys x in if r = - 1 then - 1 else r + 1))"

text \<open>\<open>s.split('.')\<close>: the segments between the dots; one empty segment for the empty string.\<close>

fun split_dot :: "string \<Rightarrow> string list" where
  "split_dot [] = [[]]"
| "split_dot (c # cs) =
     (if c = CHR ''.'' then [] # split_dot cs
      else (case split_dot cs of
              [] \<Rightarrow> [[c]]
            | w # ws \<Rightarrow> (c # w) # ws))"

section \<open>Org unit model\<close>

text \<open>
  Modelled from the spec: the static \<open>OrgUnit.getTypes\<close> is not among the sources. The
  spec fixes the types and their order: Nation, Region, Domain, Venue.
\<close>

definition getTypes :: "string list" where
  "getTypes = [''Nation'', ''Region'', ''Domain'', ''Venue'']"

text \<open>
  Modelled from the spec: the model method \<open>OrgUnit.parents\<close> is not among the sources.
  The spec gives \<open>parentPath\<close> as the dot-joined chain of ancestor ids ending in the
  unit's own id, so the ancestors' ids, root first, are its segments without the last; a
  segment that is no number counts as 0.
\<close>

definition seg_id :: "string \<Rightarrow> nat" where
  "seg_id s = (case parseInt s of NaN \<Rightarrow> 0 | Num n \<Rightarrow> nat n)"

definition parents :: "orgunit \<Rightarrow> nat list" where
  "parents u =
     (case parentPath u of
        None \<Rightarrow> []
      | Some p \<Rightarrow> map seg_id (butlast (split_dot p)))"

text \<open>
  Modelled from the spec: the model method \<open>OrgUnit.getParents\<close> is not among the
  sources. The spec's Tree Store gives \<open>getAncestors(unit)\<close> as exactly the chain implied
  by \<open>parentPath\<close>, from the immediate parent up to the root, nearest first, empty for
  the root.
\<close>

definition getParents :: "db \<Rightarrow> orgunit \<Rightarrow> orgunit list" where
  "getParents st u = List.map_filter (fetch_unit st) (rev (parents u))"

text \<open>
  Modelled from the spec: the model method \<open>OrgUnit.getChildren\<close> is not among the
  sources. The spec's persistence engine answers it by a prefix query on \<open>parentPath\<close>:
  the units whose path continues the unit's own path after a dot.
\<close>

definition getChildren :: "db \<Rightarrow> orgunit \<Rightarrow> orgunit list" where
  "getChildren st u =
     (case parentPath u of
        None \<Rightarrow> []
      | Some p \<Rightarrow>
          filter (\<lambda>v. case parentPath v of
                         None \<Rightarrow> False
                       | Some q \<Rightarrow> take (length p + 1) q = p @ ''.'')
                 (units st))"

section \<open>Permission helper\<close>

text \<open>Every JavaScript object is truthy, the empty array included.\<close>

definition truthy_array :: "'a list \<Rightarrow> bool" where
  "truthy_array xs = True"

definition mapCollection :: "office list \<Rightarrow> (office \<Rightarrow> 'a) \<Rightarrow> 'a list" where
  "mapCollection coll field = map field coll"

text \<open>\<open>-1 !== xs.indexOf(x)\<close> on an array of nullable ids.\<close>

definition indexOf_found :: "nat option list \<Rightarrow> nat \<Rightarrow> bool" where
  "indexOf_found xs x = (Some x \<in> set xs)"

definition normalizeOfficer :: "db \<Rightarrow> officer \<Rightarrow> office list option" where
  "normalizeOfficer st officer =
     (case officer of
        Resolved coll \<Rightarrow> Some coll
      | OfficerModel u \<Rightarrow> fetchAll_offices st u
      | OfficerID u \<Rightarrow> fetchAll_offices st u)"

definition carries :: "string \<Rightarrow> office \<Rightarrow> bool" where
  "carries permission c =
     (case roles c of None \<Rightarrow> False | Some rs \<Rightarrow> permission \<in> set rs)"

definition has :: "db \<Rightarrow> string \<Rightarrow> officer \<Rightarrow> error + office list" where
  "has st permission officer =
     (case normalizeOfficer st officer of
        None \<Rightarrow> Inl (Error ''User has no offices'')
      | Some held \<Rightarrow>
          (let granting = filter (carries permission) held
           in if \<not> truthy_array granting
              then Inl (Error ''No offices with permission'')
              else Inr granting))"

text \<open>
  The loop over the ancestors shared by \<open>hasOverUser\<close> and \<open>hasOverUnit\<close>: true at the
  first ancestor whose id is an office domain, the error once the list is exhausted.
\<close>

fun parents_loop :: "nat option list \<Rightarrow> orgunit list \<Rightarrow> error + bool" where
  "parents_loop officeOrgs [] = Inl (Error ''Officer not found in chain'')"
| "parents_loop officeOrgs (p # ps) =
     (if indexOf_found officeOrgs (unit_id p) then Inr True else parents_loop officeOrgs ps)"

text \<open>
  The \<open>tap\<close> of \<open>hasOverUnit\<close>: a falsy unit (absent, null or 0) becomes the id 1, and
  an id is fetched.
\<close>

definition resolve_unit :: "db \<Rightarrow> unit_arg \<Rightarrow> error + orgunit" where
  "resolve_unit st unit =
     (let unit1 = (case unit of NoUnit \<Rightarrow> UnitID 1
                   | UnitID i \<Rightarrow> if i = 0 then UnitID 1 else UnitID i
                   | UnitModel m \<Rightarrow> UnitModel m)
      in case unit1 of
           UnitModel m \<Rightarrow> Inr m
         | UnitID i \<Rightarrow>
             (case fetch_unit st i of
                None \<Rightarrow> Inl (UserError ''Org unit not found.'' 404)
              | Some m \<Rightarrow> Inr m)
         | NoUnit \<Rightarrow> Inl (UserError ''Org unit not found.'' 404))"

definition hasOverUnit :: "db \<Rightarrow> unit_arg \<Rightarrow> string \<Rightarrow> officer \<Rightarrow> error + bool" where
  "hasOverUnit st unit permission officer =
     (case has st permission officer of
        Inl e \<Rightarrow> Inl e
      | Inr granting \<Rightarrow>
          (case resolve_unit st unit of
             Inl e \<Rightarrow> Inl e
           | Inr m \<Rightarrow>
               (let officeOrgs = mapCollection granting parentOrgID
                in if indexOf_found officeOrgs 1 then Inr True
                   else if indexOf_found officeOrgs (unit_id m) then Inr True
                   else parents_loop officeOrgs (getParents st m))))"

text \<open>
  \<open>user.related('orgUnit')\<close> is the unit row the user's foreign key points to; when the
  row is missing the related model is empty and has no ancestors.
\<close>

definition related_parents :: "db \<Rightarrow> nat \<Rightarrow> orgunit list" where
  "related_parents st i =
     (case fetch_unit st i of None \<Rightarrow> [] | Some m \<Rightarrow> getParents st m)"

definition hasOverUser :: "db \<Rightarrow> user \<Rightarrow> string \<Rightarrow> officer \<Rightarrow> error + bool" where
  "hasOverUser st usr permission officer =
     (case has st permission officer of
        Inl e \<Rightarrow> Inl e
      | Inr granting \<Rightarrow>
          (let officeOrgs = mapCollection granting parentOrgID
           in case orgUnit usr of
                Some i \<Rightarrow>
                  if indexOf_found officeOrgs i then Inr True
                  else parents_loop officeOrgs (related_parents st i)
              | None \<Rightarrow>
                  if indexOf_found officeOrgs 1 then Inr True
                  else Inl (Error ''Not national officer'')))"

partial_function (option) hasOverOffice ::
  "db \<Rightarrow> office_arg \<Rightarrow> string \<Rightarrow> officer \<Rightarrow> (error + bool) option" where
  "hasOverOffice st office permission officer =
     (case (case office of
              OfficeID i \<Rightarrow>
                (case fetch_office st i of
                   None \<Rightarrow> Inl (UserError ''Office not found.'' 404)
                 | Some m \<Rightarrow> Inr m)
            | OfficeModel m \<Rightarrow> Inr m) of
        Inl e \<Rightarrow> Some (Inl e)
      | Inr m \<Rightarrow>
          (case parentOfficeID m of
             None \<Rightarrow> Some (Inl (Error ''Office not in chain''))
           | Some parent \<Rightarrow>
               (case has st permission officer of
                  Inl e \<Rightarrow> Some (Inl e)
                | Inr granting \<Rightarrow>
                    (let officeParents = mapCollection granting office_parentID
                     in if indexOf_found officeParents (office_id m) then Some (Inr True)
                        else hasOverOffice st (OfficeID parent) permission (Resolved granting)))))"

declare hasOverOffice.simps [code]

section \<open>Org unit routes\<close>

text \<open>
  The handlers of controllers/org-units.js. The officer is \<open>req.token.get('user')\<close>, a
  user id. A handler returns what it passes to \<open>next\<close> or answers, together with the
  tables afterwards. The last \<open>catch\<close> of every route lets a \<open>UserError\<close> through and
  turns any other error into a 403.
\<close>

definition final_catch :: "error \<Rightarrow> error" where
  "final_catch err =
     (case err of
        UserError m status \<Rightarrow> UserError m status
      | Error m \<Rightarrow> UserError ''Authentication failed'' 403)"

text \<open>
  \<open>promise.catch(handler)\<close> where the handler throws again: a rejection is replaced by
  what the handler throws, a result passes. The tables are those the promise left.
\<close>

definition promise_catch :: "(error \<Rightarrow> error) \<Rightarrow> (error + 'a) \<times> db \<Rightarrow> (error + 'a) \<times> db" where
  "promise_catch handler r =
     (case r of
        (Inl err, st) \<Rightarrow> (Inl (handler err), st)
      | (Inr v, st) \<Rightarrow> (Inr v, st))"

definition type_index :: "string option \<Rightarrow> int" where
  "type_index t = (case t of None \<Rightarrow> - 1 | Some x \<Rightarrow> indexOf getTypes x)"

subsection \<open>GET /search\<close>




subsection \<open>Request bodies and validation\<close>

text \<open>
  The body of a create or update request, with the keys the routes read. A key that is
  absent is \<open>None\<close>.
\<close>

record body =
  b_id :: "nat option"
  b_name :: "string option"
  b_code :: "string option"
  b_venueType :: "string option"
  b_location :: "string option"
  b_defDoc :: "string option"
  b_website :: "string option"
  b_type :: "string option"
  b_parentID :: "nat option"
  b_parentPath :: "string option"

definition isEmpty_body :: "body \<Rightarrow> bool" where
  "isEmpty_body data =
     (b_id data = None \<and> b_name data = None \<and> b_code data = None
      \<and> b_venueType data = None \<and> b_location data = None \<and> b_defDoc data = None
      \<and> b_website data = None \<and> b_type data = None \<and> b_parentID data = None
      \<and> b_parentPath data = None)"

text \<open>
  Modelled from the spec: helpers/validation, the validate.js wrapper, is not among the
  sources. The spec gives the rules: a required attribute must be there, a length rule
  wants a non-empty string when the attribute is there, an inclusion rule wants one of
  the listed values, and the website must be a well-formed URL. What a well-formed URL
  is stays a parameter. The resolved attributes are the keys that have a constraint.
\<close>

definition presence :: "'a option \<Rightarrow> bool" where
  "presence v = (v \<noteq> None)"

definition length_minimum_1 :: "string option \<Rightarrow> bool" where
  "length_minimum_1 v = (case v of None \<Rightarrow> True | Some s \<Rightarrow> 1 \<le> length s)"

definition inclusion :: "string list \<Rightarrow> string option \<Rightarrow> bool" where
  "inclusion allowed v = (case v of None \<Rightarrow> True | Some s \<Rightarrow> s \<in> set allowed)"

definition url_rule :: "(string \<Rightarrow> bool) \<Rightarrow> string option \<Rightarrow> bool" where
  "url_rule url v = (case v of None \<Rightarrow> True | Some s \<Rightarrow> url s)"

text \<open>The constraints of the create route, and the attributes it goes on with.\<close>

definition validate_create :: "(string \<Rightarrow> bool) \<Rightarrow> body \<Rightarrow> body option" where
  "validate_create url data =
     (if length_minimum_1 (b_name data) \<and> presence (b_name data)
         \<and> length_minimum_1 (b_code data) \<and> presence (b_code data)
         \<and> length_minimum_1 (b_venueType data)
         \<and> url_rule url (b_website data)
         \<and> inclusion [''Venue'', ''Domain'', ''Region''] (b_type data) \<and> presence (b_type data)
         \<and> length_minimum_1 (b_parentPath data) \<and> presence (b_parentPath data)
      then Some (data\<lparr>b_parentID := None\<rparr>)
      else None)"

text \<open>The constraints of the update route: every attribute is optional.\<close>

definition validate_update :: "(string \<Rightarrow> bool) \<Rightarrow> body \<Rightarrow> body option" where
  "validate_update url data =
     (if length_minimum_1 (b_name data)
         \<and> length_minimum_1 (b_code data)
         \<and> url_rule url (b_website data)
         \<and> inclusion [''Venue'', ''Domain'', ''Region''] (b_type data)
      then Some (data\<lparr>b_id := None, b_parentID := None, b_parentPath := None\<rparr>)
      else None)"

subsection \<open>POST /\<close>

text \<open>
  Modelled from the spec: the persistence engine's insert. The spec makes \<open>id\<close> and
  \<open>code\<close> unique; a row without an id gets a fresh one. The insert fails on a
  duplicate.
\<close>

definition fresh_id :: "db \<Rightarrow> nat" where
  "fresh_id st = Suc (fold max (map unit_id (units st)) 0)"

definition insert_unit :: "db \<Rightarrow> body \<Rightarrow> (orgunit \<times> db) option" where
  "insert_unit st a =
     (let i = (case b_id a of None \<Rightarrow> fresh_id st | Some j \<Rightarrow> j)
      in if i \<in> set (map unit_id (units st))
            \<or> (b_code a \<noteq> None \<and> b_code a \<in> set (map code (units st)))
         then None
         else
           (let u = \<lparr>unit_id = i, code = b_code a, name = b_name a, unit_type = b_type a,
                      unit_parentID = b_parentID a, parentPath = b_parentPath a,
                      lft = None, rgt = None, venueType = b_venueType a,
                      location = b_location a, defDoc = b_defDoc a, website = b_website a\<rparr>
            in Some (u, st\<lparr>units := units st @ [u]\<rparr>)))"

text \<open>\<open>unit.save()\<close>: the row with the unit's id is overwritten.\<close>

definition save_unit :: "db \<Rightarrow> orgunit \<Rightarrow> db" where
  "save_unit st u = st\<lparr>units := map (\<lambda>v. if unit_id v = unit_id u then u else v) (units st)\<rparr>"

text \<open>
  The transaction of the create route: the insert, then the write of \<open>parentPath\<close> with
  the new id appended. When the insert fails nothing is written.
\<close>

definition create_transaction :: "db \<Rightarrow> body \<Rightarrow> (error + orgunit) \<times> db" where
  "create_transaction st attributes =
     (case insert_unit st attributes of
        None \<Rightarrow> (Inl (Error ''insert failed''), st)
      | Some (u, st1) \<Rightarrow>
          (let u1 = u\<lparr>parentPath := Some (js_str (b_parentPath attributes) @ show_nat (unit_id u))\<rparr>
           in (Inr u1, save_unit st1 u1)))"

text \<open>
  The \<open>then\<close> that validates and saves. The \<open>catch\<close> after the transaction is the last
  of its chain, so it also receives the rejection of a failed validation.
\<close>

definition create_validate_save :: "(string \<Rightarrow> bool) \<Rightarrow> db \<Rightarrow> body \<Rightarrow> (error + orgunit) \<times> db" where
  "create_validate_save url st data =
     (if b_type data = Some ''Venue'' then (Inl (Error ''contraints is not defined''), st)
      else
        promise_catch (\<lambda>err. UserError ''There was an error creating the org unit'' 500)
          (case validate_create url data of
             None \<Rightarrow> (Inl (UserError ''Invalid data provided'' 400), st)
           | Some attributes \<Rightarrow> create_transaction st attributes))"

definition create_chain :: "(string \<Rightarrow> bool) \<Rightarrow> db \<Rightarrow> body \<Rightarrow> nat \<Rightarrow> string \<Rightarrow> nat \<Rightarrow> (error + orgunit) \<times> db" where
  "create_chain url st data parentID type officer =
     (case fetch_unit st parentID of
        None \<Rightarrow> (Inl (UserError ''Parent not found'' 400), st)
      | Some parent \<Rightarrow>
          (case hasOverUnit st (UnitModel parent) (''org_create_'' @ toLowerCase type)
                  (OfficerID officer) of
             Inl err \<Rightarrow> (Inl err, st)
           | Inr ok \<Rightarrow>
               if indexOf getTypes type - 1 \<noteq> type_index (unit_type parent)
               then (Inl (UserError ''Org type doesn't match expected type'' 400), st)
               else create_validate_save url st
                      (data\<lparr>b_parentPath := Some (js_str (parentPath parent) @ ''.'')\<rparr>)))"

definition router_post :: "(string \<Rightarrow> bool) \<Rightarrow> db \<Rightarrow> body \<Rightarrow> nat \<Rightarrow> (error + orgunit) \<times> db" where
  "router_post url st data officer =
     (if isEmpty_body data then (Inl (UserError ''No data provided'' 400), st)
      else
        (case b_parentID data of
           None \<Rightarrow> (Inl (UserError ''No parent provided'' 400), st)
         | Some parentID \<Rightarrow>
             if parentID = 0 then (Inl (UserError ''No parent provided'' 400), st)
             else
               (case b_type data of
                  None \<Rightarrow> (Inl (UserError ''Invalid org unit type'' 400), st)
                | Some type \<Rightarrow>
                    if indexOf getTypes type = - 1 \<or> type = ''Nation''
                    then (Inl (UserError ''Invalid org unit type'' 400), st)
                    else
                      promise_catch final_catch
                        (create_chain url st data parentID type officer))))"

subsection \<open>PUT /:id\<close>

text \<open>\<open>query.where('id', n)\<close> and \<open>query.where('code', c)\<close>, fetched with \<open>require\<close>.\<close>

definition fetch_where_id :: "db \<Rightarrow> jsnum \<Rightarrow> orgunit option" where
  "fetch_where_id st n =
     (case n of
        NaN \<Rightarrow> None
      | Num i \<Rightarrow> find (\<lambda>u. int (unit_id u) = i) (units st))"

definition fetch_where_code :: "db \<Rightarrow> string \<Rightarrow> orgunit option" where
  "fetch_where_code st c = find (\<lambda>u. code u = Some c) (units st)"

text \<open>The lookup of the update route, with its test \<open>NaN !== Number.parseInt(id)\<close>.\<close>

definition put_lookup :: "db \<Rightarrow> string \<Rightarrow> orgunit option" where
  "put_lookup st ident =
     (if strict_neq NaN (parseInt ident) then fetch_where_id st (parseInt ident)
      else fetch_where_code st ident)"

text \<open>\<open>unit.save(attributes)\<close>: the attributes given overwrite the unit's.\<close>

definition override :: "'a option \<Rightarrow> 'a option \<Rightarrow> 'a option" where
  "override new old = (case new of None \<Rightarrow> old | Some v \<Rightarrow> Some v)"

definition set_attributes :: "orgunit \<Rightarrow> body \<Rightarrow> orgunit" where
  "set_attributes u a =
     u\<lparr>name := override (b_name a) (name u), code := override (b_code a) (code u),
       venueType := override (b_venueType a) (venueType u),
       location := override (b_location a) (location u),
       defDoc := override (b_defDoc a) (defDoc u),
       website := override (b_website a) (website u),
       unit_type := override (b_type a) (unit_type u)\<rparr>"

definition router_put ::
  "(string \<Rightarrow> bool) \<Rightarrow> db \<Rightarrow> string \<Rightarrow> body \<Rightarrow> nat \<Rightarrow> (error + orgunit) \<times> db" where
  "router_put url st ident data officer =
     (if isEmpty_body data then (Inl (UserError ''No data provided'' 400), st)
      else
        (case put_lookup st ident of
           None \<Rightarrow> (Inl (UserError ''Org unit not found'' 404), st)
         | Some u \<Rightarrow>
             (case hasOverUnit st (UnitModel u) ''org_update'' (OfficerID officer) of
                Inl err \<Rightarrow> (Inl (final_catch err), st)
              | Inr ok \<Rightarrow>
                  (case validate_update url data of
                     None \<Rightarrow> (Inl (UserError ''Invalid data provided'' 400), st)
                   | Some attributes \<Rightarrow>
                       (let u1 = set_attributes u attributes
                        in (Inr u1, save_unit st u1))))))"

subsection \<open>DELETE /:id\<close>

text \<open>
  The transaction of the delete route. Its three writes are joined, and a rejection of
  any of them rolls all of them back. The user update throws when \<open>parents.pop()\<close> is
  falsy; it is a \<open>save\<close> with \<open>patch\<close>, which rejects with "No Rows Updated" when no
  user row matches. The office delete that matches no row changes nothing.
\<close>

definition delete_transaction :: "db \<Rightarrow> orgunit \<Rightarrow> (error + unit) \<times> db" where
  "delete_transaction st u =
     (if parents u = [] \<or> last (parents u) = 0
      then (Inl (UserError ''No parent found'' 500), st)
      else if filter (\<lambda>x. orgUnit x = Some (unit_id u)) (users st) = []
      then (Inl (Error ''No Rows Updated''), st)
      else
        (Inr (),
         st\<lparr>offices := filter (\<lambda>c. parentOrgID c \<noteq> Some (unit_id u)) (offices st),
            users := map (\<lambda>x. if orgUnit x = Some (unit_id u)
                               then x\<lparr>orgUnit := Some (last (parents u))\<rparr> else x) (users st),
            units := filter (\<lambda>v. unit_id v \<noteq> unit_id u) (units st)\<rparr>))"

definition delete_chain :: "db \<Rightarrow> orgunit \<Rightarrow> nat \<Rightarrow> (error + unit) \<times> db" where
  "delete_chain st u officer =
     (case (case unit_type u of
              None \<Rightarrow> Inl (Error ''Cannot read property toLowerCase of null'')
            | Some t \<Rightarrow>
                hasOverUnit st (UnitModel u) (''org_create_'' @ toLowerCase t) (OfficerID officer)) of
        Inl err \<Rightarrow> (Inl err, st)
      | Inr ok \<Rightarrow>
          if length (getChildren st u) \<noteq> 0
          then (Inl (UserError ''Cannot delete org with children'' 500), st)
          else delete_transaction st u)"

definition router_delete :: "db \<Rightarrow> string \<Rightarrow> nat \<Rightarrow> (error + unit) \<times> db" where
  "router_delete st ident officer =
     (let n = parseInt ident
      in if strict_neq NaN n \<and> n = Num 1
         then (Inl (UserError ''Cannot delete root org'' 500), st)
         else
           (case (if strict_neq NaN n then fetch_where_id st n
                  else fetch_where_code st ''NaN'') of
              None \<Rightarrow> (Inl (UserError ''Org unit not found'' 404), st)
            | Some u \<Rightarrow> promise_catch final_catch (delete_chain st u officer)))"

section \<open>What the spec asks of the permission helper\<close>

text \<open>
  The spec's words for the scope of an office. An office covers a unit when its
  \<open>parentOrgID\<close> is the root unit 1, the unit itself or one of the unit's ancestors; it
  covers a user's unit when its \<open>parentOrgID\<close> is that unit or one of its ancestors.
\<close>

definition covers_unit :: "db \<Rightarrow> orgunit \<Rightarrow> office \<Rightarrow> bool" where
  "covers_unit st m c =
     (case parentOrgID c of
        None \<Rightarrow> False
      | Some d \<Rightarrow> d = 1 \<or> d = unit_id m \<or> d \<in> set (map unit_id (getParents st m)))"

definition covers_user :: "db \<Rightarrow> nat \<Rightarrow> office \<Rightarrow> bool" where
  "covers_user st i c =
     (case parentOrgID c of
        None \<Rightarrow> False
      | Some d \<Rightarrow> d = i \<or> d \<in> set (map unit_id (related_parents st i)))"

text \<open>
  The office chain. The chain is acyclic when some rank falls along every
  \<open>parentOfficeID\<close> link of the stored offices. A list of office ids is an unmatched
  cycle when every office on it is stored, answers to an office on the list, and is the
  \<open>parentID\<close> of none of the granting offices. A walk of the chain can stop with true
  or with one of three errors.
\<close>

definition acyclic_chain :: "db \<Rightarrow> (nat \<Rightarrow> nat) \<Rightarrow> bool" where
  "acyclic_chain st rank =
     (\<forall>m \<in> set (offices st).
        case parentOfficeID m of None \<Rightarrow> True | Some p \<Rightarrow> rank p < rank (office_id m))"

definition unmatched_cycle :: "db \<Rightarrow> office list \<Rightarrow> nat list \<Rightarrow> bool" where
  "unmatched_cycle st granting ids =
     (\<forall>i \<in> set ids.
        case fetch_office st i of
          None \<Rightarrow> False
        | Some m \<Rightarrow>
            (case parentOfficeID m of None \<Rightarrow> False | Some p \<Rightarrow> p \<in> set ids)
            \<and> \<not> indexOf_found (mapCollection granting office_parentID) (office_id m))"

definition stop_result :: "error + bool \<Rightarrow> bool" where
  "stop_result y =
     (y = Inr True \<or> y = Inl (Error ''Office not in chain'')
      \<or> y = Inl (UserError ''Office not found.'' 404)
      \<or> y = Inl (Error ''User has no offices''))"

text \<open>
  The spec's walk of the office chain, as a relation between a call and its result. A
  target that is an id is fetched first. The walk stops at an office without a parent
  office, at an officer without offices, and with a grant when a granting office's
  \<open>parentID\<close> is the target; otherwise it goes on from the target's parent office with
  the granting offices as the officer. A call is related to a result only when a stop is
  reached after finitely many steps.
\<close>

definition matches :: "string \<Rightarrow> office list \<Rightarrow> office \<Rightarrow> bool" where
  "matches permission held m =
     (\<exists>c \<in> set held. carries permission c \<and> office_parentID c = Some (office_id m))"

inductive walk :: "db \<Rightarrow> string \<Rightarrow> office_arg \<Rightarrow> officer \<Rightarrow> error + bool \<Rightarrow> bool"
  for st :: db and permission :: string where
  not_stored:
    "fetch_office st i = None \<Longrightarrow>
     walk st permission (OfficeID i) officer (Inl (UserError ''Office not found.'' 404))"
| stored:
    "fetch_office st i = Some m \<Longrightarrow> walk st permission (OfficeModel m) officer y \<Longrightarrow>
     walk st permission (OfficeID i) officer y"
| not_in_chain:
    "parentOfficeID m = None \<Longrightarrow>
     walk st permission (OfficeModel m) officer (Inl (Error ''Office not in chain''))"
| no_offices:
    "parentOfficeID m = Some p \<Longrightarrow> normalizeOfficer st officer = None \<Longrightarrow>
     walk st permission (OfficeModel m) officer (Inl (Error ''User has no offices''))"
| granted:
    "parentOfficeID m = Some p \<Longrightarrow> normalizeOfficer st officer = Some held \<Longrightarrow>
     matches permission held m \<Longrightarrow>
     walk st permission (OfficeModel m) officer (Inr True)"
| parent:
    "parentOfficeID m = Some p \<Longrightarrow> normalizeOfficer st officer = Some held \<Longrightarrow>
     \<not> matches permission held m \<Longrightarrow>
     walk st permission (OfficeID p) (Resolved (filter (carries permission) held)) y \<Longrightarrow>
     walk st permission (OfficeModel m) officer y"

code_pred walk .

section \<open>What the spec asks of the search route\<close>




section \<open>What the spec asks of the tree\<close>

text \<open>
  The spec's \<open>parentPath\<close>: the ids of the ancestors down to the unit itself, joined by
  dots.
\<close>

fun dot_join :: "nat list \<Rightarrow> string" where
  "dot_join [] = []"
| "dot_join [i] = show_nat i"
| "dot_join (i # j # js) = show_nat i @ ''.'' @ dot_join (j # js)"

text \<open>
  The permission the delete route asks for: \<open>org_create_\<close> and the unit's type in
  lower case, over the unit itself.
\<close>

definition may_delete :: "db \<Rightarrow> orgunit \<Rightarrow> nat \<Rightarrow> bool" where
  "may_delete st u officer =
     (case unit_type u of
        None \<Rightarrow> False
      | Some t \<Rightarrow>
          hasOverUnit st (UnitModel u) (''org_create_'' @ toLowerCase t) (OfficerID officer)
            = Inr True)"

section \<open>Example data\<close>

text \<open>
  The spec's example tree: the Nation 1, the Region 2 under it and the Domain 3 under the
  Region. User 5 holds a regional office over unit 2, user 6 an office over unit 3 that
  carries no org permission, and user 9 holds no office.
\<close>

definition nation1 :: orgunit where
  "nation1 = \<lparr>unit_id = 1, code = Some ''US'', name = Some ''Nation'', unit_type = Some ''Nation'',
     unit_parentID = None, parentPath = Some ''1'', lft = Some 1, rgt = Some 10,
     venueType = None, location = None, defDoc = None, website = None\<rparr>"

definition region2 :: orgunit where
  "region2 = \<lparr>unit_id = 2, code = Some ''NE'', name = Some ''North East'', unit_type = Some ''Region'',
     unit_parentID = Some 1, parentPath = Some ''1.2'', lft = Some 2, rgt = Some 5,
     venueType = None, location = None, defDoc = None, website = None\<rparr>"

definition domain3 :: orgunit where
  "domain3 = \<lparr>unit_id = 3, code = Some ''NY-004'', name = Some ''Albany'', unit_type = Some ''Domain'',
     unit_parentID = Some 2, parentPath = Some ''1.2.3'', lft = Some 3, rgt = Some 4,
     venueType = None, location = None, defDoc = None, website = None\<rparr>"

definition office10 :: office where
  "office10 = \<lparr>office_id = 10, userID = 5, parentOrgID = Some 2, parentOfficeID = None,
     office_parentID = None,
     roles = Some [''org_update'', ''org_create_region'', ''org_create_domain'', ''org_create_venue'']\<rparr>"

definition office11 :: office where
  "office11 = \<lparr>office_id = 11, userID = 6, parentOrgID = Some 3, parentOfficeID = None,
     office_parentID = None, roles = Some [''user_read'']\<rparr>"

definition user6 :: user where
  "user6 = \<lparr>user_id = 6, orgUnit = Some 3\<rparr>"

definition user7 :: user where
  "user7 = \<lparr>user_id = 7, orgUnit = Some 3\<rparr>"

definition user5 :: user where
  "user5 = \<lparr>user_id = 5, orgUnit = Some 2\<rparr>"

definition example_db :: db where
  "example_db = \<lparr>offices = [office10, office11], units = [nation1, region2, domain3],
     users = [user5, user6, user7]\<rparr>"

text \<open>The same tables when the Domain 3 has no users.\<close>

definition empty_leaf_db :: db where
  "empty_leaf_db = example_db\<lparr>users := [user5]\<rparr>"

text \<open>
  Office chains. In \<open>chain_db\<close> office 1 answers to office 2, office 2 to office 3 and
  office 3 to office 4; user 5 holds office 20, whose \<open>parentID\<close> is office 3. In
  \<open>cycle_db\<close> office 1 answers to office 2 and office 2 to office 1.
\<close>

definition chain_office :: "nat \<Rightarrow> nat option \<Rightarrow> office" where
  "chain_office i parent = \<lparr>office_id = i, userID = 40 + i, parentOrgID = None,
     parentOfficeID = parent, office_parentID = None, roles = None\<rparr>"

definition office20 :: office where
  "office20 = \<lparr>office_id = 20, userID = 5, parentOrgID = None, parentOfficeID = None,
     office_parentID = Some 3, roles = Some [''office_update'']\<rparr>"

definition chain_db :: db where
  "chain_db = \<lparr>offices = [chain_office 1 (Some 2), chain_office 2 (Some 3),
       chain_office 3 (Some 4), chain_office 4 None, office20],
     units = [], users = []\<rparr>"

definition cycle_db :: db where
  "cycle_db = \<lparr>offices = [chain_office 1 (Some 2), chain_office 2 (Some 1), office20],
     units = [], users = []\<rparr>"

text \<open>Request bodies: a Domain under the Region 2, and a Venue under the Domain 3.\<close>

definition empty_body :: body where
  "empty_body = \<lparr>b_id = None, b_name = None, b_code = None, b_venueType = None,
     b_location = None, b_defDoc = None, b_website = None, b_type = None,
     b_parentID = None, b_parentPath = None\<rparr>"

definition domain_body :: body where
  "domain_body = empty_body\<lparr>b_name := Some ''Buffalo'', b_code := Some ''NY-010'',
     b_type := Some ''Domain'', b_parentID := Some 2\<rparr>"

definition venue_body :: body where
  "venue_body = empty_body\<lparr>b_name := Some ''Troupe night'', b_code := Some ''V1'',
     b_venueType := Some ''Troupe'', b_type := Some ''Venue'', b_parentID := Some 3\<rparr>"

definition any_url :: "string \<Rightarrow> bool" where
  "any_url s = True"

section \<open>The permission helper: granting offices\<close>

lemma parents_loop_result:
  "parents_loop officeOrgs ps =
     (if \<exists>p \<in> set ps. indexOf_found officeOrgs (unit_id p) then Inr True
      else Inl (Error ''Officer not found in chain''))"
  by (induction ps) auto

lemma granting_domain:
  "indexOf_found (mapCollection (filter (carries permission) held) parentOrgID) d
     \<longleftrightarrow> (\<exists>c \<in> set held. carries permission c \<and> parentOrgID c = Some d)"
  by (force simp: indexOf_found_def mapCollection_def)

lemma has_result:
  "has st permission officer =
     (case normalizeOfficer st officer of
        None \<Rightarrow> Inl (Error ''User has no offices'')
      | Some held \<Rightarrow> Inr (filter (carries permission) held))"
  by (simp add: has_def truthy_array_def split: option.splits)

text \<open>
  C2 (the code at the failing input). User 6 holds one office and it does not carry
  \<open>org_update\<close>. The spec lets \<open>has\<close> fail here; the test \<open>! offices\<close> never fires on
  an array, so the code answers the empty list of granting offices.
\<close>

theorem has_without_permission:
  "normalizeOfficer example_db (OfficerID 6) = Some [office11]
   \<and> \<not> carries ''org_update'' office11
   \<and> has example_db ''org_update'' (OfficerID 6) = Inr []"
  by code_simp


section \<open>The permission helper: scope over units and users\<close>

text \<open>
  What the two functions compute, in terms of the offices the officer holds: the loop
  over the ancestors and the two \<open>indexOf\<close> tests become one question about the offices.
\<close>

lemma hasOverUnit_result:
  "hasOverUnit st unit permission officer =
     (case normalizeOfficer st officer of
        None \<Rightarrow> Inl (Error ''User has no offices'')
      | Some held \<Rightarrow>
          (case resolve_unit st unit of
             Inl e \<Rightarrow> Inl e
           | Inr m \<Rightarrow>
               if \<exists>c \<in> set held. carries permission c \<and> covers_unit st m c then Inr True
               else Inl (Error ''Officer not found in chain'')))"
proof (cases "normalizeOfficer st officer")
  case None
  then show ?thesis by (simp add: hasOverUnit_def has_result)
next
  case (Some held)
  show ?thesis
  proof (cases "resolve_unit st unit")
    case (Inl e)
    with Some show ?thesis by (simp add: hasOverUnit_def has_result)
  next
    case (Inr m)
    have "(\<exists>c \<in> set held. carries permission c \<and> covers_unit st m c) \<longleftrightarrow>
          (let orgs = mapCollection (filter (carries permission) held) parentOrgID
           in indexOf_found orgs 1 \<or> indexOf_found orgs (unit_id m)
              \<or> (\<exists>p \<in> set (getParents st m). indexOf_found orgs (unit_id p)))"
      unfolding Let_def granting_domain covers_unit_def
      by (auto split: option.splits)
    with Some Inr show ?thesis
      by (simp add: hasOverUnit_def has_result parents_loop_result Let_def)
  qed
qed

lemma hasOverUser_result:
  "hasOverUser st usr permission officer =
     (case normalizeOfficer st officer of
        None \<Rightarrow> Inl (Error ''User has no offices'')
      | Some held \<Rightarrow>
          (case orgUnit usr of
             None \<Rightarrow>
               if \<exists>c \<in> set held. carries permission c \<and> parentOrgID c = Some 1 then Inr True
               else Inl (Error ''Not national officer'')
           | Some i \<Rightarrow>
               if \<exists>c \<in> set held. carries permission c \<and> covers_user st i c then Inr True
               else Inl (Error ''Officer not found in chain'')))"
proof (cases "normalizeOfficer st officer")
  case None
  then show ?thesis by (simp add: hasOverUser_def has_result)
next
  case (Some held)
  show ?thesis
  proof (cases "orgUnit usr")
    case None
    with Some show ?thesis
      by (simp add: hasOverUser_def has_result granting_domain Let_def)
  next
    case (Some i)
    have "(\<exists>c \<in> set held. carries permission c \<and> covers_user st i c) \<longleftrightarrow>
          (let orgs = mapCollection (filter (carries permission) held) parentOrgID
           in indexOf_found orgs i
              \<or> (\<exists>p \<in> set (related_parents st i). indexOf_found orgs (unit_id p)))"
      unfolding Let_def granting_domain covers_user_def
      by (auto split: option.splits)
    with Some \<open>normalizeOfficer st officer = Some held\<close> show ?thesis
      by (simp add: hasOverUser_def has_result parents_loop_result Let_def)
  qed
qed

lemma resolve_unit_absent: "resolve_unit st NoUnit = resolve_unit st (UnitID 1)"
  by (simp add: resolve_unit_def)

text \<open>
  C1, amended. \<open>hasOverUnit\<close> answers true exactly when the officer's offices resolve,
  the unit resolves, and one of the offices held carries the permission and covers the
  unit (root, the unit itself or an ancestor). In every other case it fails: with "User
  has no offices" when the officer holds no office, else with the 404 of the unit
  lookup when a unit id is unknown, else with "Officer not found in chain". An absent
  unit stands for the unit 1.
\<close>

theorem hasOverUnit_scope:
  "(hasOverUnit st unit permission officer = Inr True \<longleftrightarrow>
      (\<exists>held m. normalizeOfficer st officer = Some held \<and> resolve_unit st unit = Inr m
         \<and> (\<exists>c \<in> set held. carries permission c \<and> covers_unit st m c)))
   \<and> hasOverUnit st unit permission officer =
       (case normalizeOfficer st officer of
          None \<Rightarrow> Inl (Error ''User has no offices'')
        | Some held \<Rightarrow>
            (case resolve_unit st unit of
               Inl e \<Rightarrow> Inl e
             | Inr m \<Rightarrow>
                 if \<exists>c \<in> set held. carries permission c \<and> covers_unit st m c then Inr True
                 else Inl (Error ''Officer not found in chain'')))
   \<and> hasOverUnit st NoUnit permission officer = hasOverUnit st (UnitID 1) permission officer"
proof (intro conjI)
  show "hasOverUnit st unit permission officer = Inr True \<longleftrightarrow>
      (\<exists>held m. normalizeOfficer st officer = Some held \<and> resolve_unit st unit = Inr m
         \<and> (\<exists>c \<in> set held. carries permission c \<and> covers_unit st m c))"
    unfolding hasOverUnit_result by (auto split: option.splits sum.splits)
  show "hasOverUnit st unit permission officer =
       (case normalizeOfficer st officer of
          None \<Rightarrow> Inl (Error ''User has no offices'')
        | Some held \<Rightarrow>
            (case resolve_unit st unit of
               Inl e \<Rightarrow> Inl e
             | Inr m \<Rightarrow>
                 if \<exists>c \<in> set held. carries permission c \<and> covers_unit st m c then Inr True
                 else Inl (Error ''Officer not found in chain'')))"
    by (rule hasOverUnit_result)
  show "hasOverUnit st NoUnit permission officer = hasOverUnit st (UnitID 1) permission officer"
    unfolding hasOverUnit_result resolve_unit_absent ..
qed

text \<open>
  The spec's example, where the officer's Region 2 is an ancestor of the Domain 3; the
  same officer over the Nation and over an unknown unit; an officer without offices; and
  an officer whose only office does not carry the permission.
\<close>

theorem hasOverUnit_scope_witness:
  "normalizeOfficer example_db (OfficerID 5) = Some [office10]
   \<and> carries ''org_update'' office10
   \<and> resolve_unit example_db (UnitID 3) = Inr domain3
   \<and> covers_unit example_db domain3 office10
   \<and> hasOverUnit example_db (UnitID 3) ''org_update'' (OfficerID 5) = Inr True
   \<and> resolve_unit example_db (UnitID 1) = Inr nation1
   \<and> \<not> covers_unit example_db nation1 office10
   \<and> hasOverUnit example_db (UnitID 1) ''org_update'' (OfficerID 5)
        = Inl (Error ''Officer not found in chain'')
   \<and> resolve_unit example_db (UnitID 8) = Inl (UserError ''Org unit not found.'' 404)
   \<and> hasOverUnit example_db (UnitID 8) ''org_update'' (OfficerID 5)
        = Inl (UserError ''Org unit not found.'' 404)
   \<and> normalizeOfficer example_db (OfficerID 9) = None
   \<and> hasOverUnit example_db (UnitID 3) ''org_update'' (OfficerID 9)
        = Inl (Error ''User has no offices'')
   \<and> normalizeOfficer example_db (OfficerID 6) = Some [office11]
   \<and> \<not> carries ''org_update'' office11
   \<and> hasOverUnit example_db (UnitID 3) ''org_update'' (OfficerID 6)
        = Inl (Error ''Officer not found in chain'')"
proof -
  have held: "normalizeOfficer example_db (OfficerID 5) = Some [office10]"
    and carries: "carries ''org_update'' office10"
    and domain: "resolve_unit example_db (UnitID 3) = Inr domain3"
    and covered: "covers_unit example_db domain3 office10"
    and nation: "resolve_unit example_db (UnitID 1) = Inr nation1"
    and uncovered: "\<not> covers_unit example_db nation1 office10"
    and unknown: "resolve_unit example_db (UnitID 8) = Inl (UserError ''Org unit not found.'' 404)"
    and none: "normalizeOfficer example_db (OfficerID 9) = None"
    and other: "normalizeOfficer example_db (OfficerID 6) = Some [office11]"
    and lacks: "\<not> carries ''org_update'' office11"
    by code_simp+
  from other lacks domain
    hasOverUnit_scope [of example_db "UnitID 3" "''org_update''" "OfficerID 6"]
  have ungranted: "hasOverUnit example_db (UnitID 3) ''org_update'' (OfficerID 6)
        = Inl (Error ''Officer not found in chain'')"
    by simp
  from held carries domain covered
    hasOverUnit_scope [of example_db "UnitID 3" "''org_update''" "OfficerID 5"]
  have granted: "hasOverUnit example_db (UnitID 3) ''org_update'' (OfficerID 5) = Inr True"
    by simp
  from held carries nation uncovered
    hasOverUnit_scope [of example_db "UnitID 1" "''org_update''" "OfficerID 5"]
  have chain: "hasOverUnit example_db (UnitID 1) ''org_update'' (OfficerID 5)
        = Inl (Error ''Officer not found in chain'')"
    by simp
  from held carries unknown
    hasOverUnit_scope [of example_db "UnitID 8" "''org_update''" "OfficerID 5"]
  have missing: "hasOverUnit example_db (UnitID 8) ''org_update'' (OfficerID 5)
        = Inl (UserError ''Org unit not found.'' 404)"
    by simp
  from none hasOverUnit_scope [of example_db "UnitID 3" "''org_update''" "OfficerID 9"]
  have no_office: "hasOverUnit example_db (UnitID 3) ''org_update'' (OfficerID 9)
        = Inl (Error ''User has no offices'')"
    by simp
  from held carries domain covered granted nation uncovered chain unknown missing none no_office
    other lacks ungranted
  show ?thesis by simp
qed

text \<open>
  C1 as the spec words it fails for an officer who holds no office: no office grants
  anything, and the failure is the one of \<open>has\<close>, not the chain's.
\<close>

theorem hasOverUnit_no_office_counterexample:
  "normalizeOfficer example_db (OfficerID 9) = None
   \<and> hasOverUnit example_db (UnitID 3) ''org_update'' (OfficerID 9)
       = Inl (Error ''User has no offices'')
   \<and> hasOverUnit example_db (UnitID 3) ''org_update'' (OfficerID 9)
       \<noteq> Inl (Error ''Officer not found in chain'')"
  by code_simp

text \<open>
  C9, amended. \<open>hasOverUser\<close> answers true exactly when an office held carries the
  permission and has as its domain the root unit 1, for a user without a unit, or the
  user's unit or one of its ancestors, for a user with a unit. In every other case it
  fails: with "User has no offices" when the officer holds no office, else with "Not
  national officer" for a user without a unit and with "Officer not found in chain" for
  a user with a unit.
\<close>

theorem hasOverUser_scope:
  "(hasOverUser st usr permission officer = Inr True \<longleftrightarrow>
      (\<exists>held. normalizeOfficer st officer = Some held
         \<and> (\<exists>c \<in> set held. carries permission c
               \<and> (case orgUnit usr of
                     None \<Rightarrow> parentOrgID c = Some 1
                   | Some i \<Rightarrow> covers_user st i c))))
   \<and> hasOverUser st usr permission officer =
       (case normalizeOfficer st officer of
          None \<Rightarrow> Inl (Error ''User has no offices'')
        | Some held \<Rightarrow>
            (case orgUnit usr of
               None \<Rightarrow>
                 if \<exists>c \<in> set held. carries permission c \<and> parentOrgID c = Some 1 then Inr True
                 else Inl (Error ''Not national officer'')
             | Some i \<Rightarrow>
                 if \<exists>c \<in> set held. carries permission c \<and> covers_user st i c then Inr True
                 else Inl (Error ''Officer not found in chain'')))"
proof (intro conjI)
  show "hasOverUser st usr permission officer = Inr True \<longleftrightarrow>
      (\<exists>held. normalizeOfficer st officer = Some held
         \<and> (\<exists>c \<in> set held. carries permission c
               \<and> (case orgUnit usr of
                     None \<Rightarrow> parentOrgID c = Some 1
                   | Some i \<Rightarrow> covers_user st i c)))"
    unfolding hasOverUser_result by (auto split: option.splits)
  show "hasOverUser st usr permission officer =
       (case normalizeOfficer st officer of
          None \<Rightarrow> Inl (Error ''User has no offices'')
        | Some held \<Rightarrow>
            (case orgUnit usr of
               None \<Rightarrow>
                 if \<exists>c \<in> set held. carries permission c \<and> parentOrgID c = Some 1 then Inr True
                 else Inl (Error ''Not national officer'')
             | Some i \<Rightarrow>
                 if \<exists>c \<in> set held. carries permission c \<and> covers_user st i c then Inr True
                 else Inl (Error ''Officer not found in chain'')))"
    by (rule hasOverUser_result)
qed

text \<open>
  User 7 in the Domain 3, in the Nation and without a unit, before an officer of the
  Region 2; an officer without offices; and an officer whose only office does not carry
  the permission.
\<close>

theorem hasOverUser_scope_witness:
  "normalizeOfficer example_db (OfficerID 5) = Some [office10]
   \<and> carries ''org_update'' office10
   \<and> orgUnit user7 = Some 3 \<and> covers_user example_db 3 office10
   \<and> hasOverUser example_db user7 ''org_update'' (OfficerID 5) = Inr True
   \<and> orgUnit (user7\<lparr>orgUnit := Some 1\<rparr>) = Some 1 \<and> \<not> covers_user example_db 1 office10
   \<and> hasOverUser example_db (user7\<lparr>orgUnit := Some 1\<rparr>) ''org_update'' (OfficerID 5)
        = Inl (Error ''Officer not found in chain'')
   \<and> orgUnit (user7\<lparr>orgUnit := None\<rparr>) = None \<and> parentOrgID office10 \<noteq> Some 1
   \<and> hasOverUser example_db (user7\<lparr>orgUnit := None\<rparr>) ''org_update'' (OfficerID 5)
        = Inl (Error ''Not national officer'')
   \<and> normalizeOfficer example_db (OfficerID 9) = None
   \<and> hasOverUser example_db user7 ''org_update'' (OfficerID 9)
        = Inl (Error ''User has no offices'')
   \<and> normalizeOfficer example_db (OfficerID 6) = Some [office11]
   \<and> \<not> carries ''org_update'' office11
   \<and> hasOverUser example_db user7 ''org_update'' (OfficerID 6)
        = Inl (Error ''Officer not found in chain'')"
proof -
  have held: "normalizeOfficer example_db (OfficerID 5) = Some [office10]"
    and carries: "carries ''org_update'' office10"
    and unit: "orgUnit user7 = Some 3"
    and covered: "covers_user example_db 3 office10"
    and uncovered: "\<not> covers_user example_db 1 office10"
    and regional: "parentOrgID office10 \<noteq> Some 1"
    and none: "normalizeOfficer example_db (OfficerID 9) = None"
    and other: "normalizeOfficer example_db (OfficerID 6) = Some [office11]"
    and lacks: "\<not> carries ''org_update'' office11"
    by code_simp+
  from other lacks unit
    hasOverUser_scope [of example_db user7 "''org_update''" "OfficerID 6"]
  have ungranted: "hasOverUser example_db user7 ''org_update'' (OfficerID 6)
        = Inl (Error ''Officer not found in chain'')"
    by simp
  from held carries unit covered
    hasOverUser_scope [of example_db user7 "''org_update''" "OfficerID 5"]
  have granted: "hasOverUser example_db user7 ''org_update'' (OfficerID 5) = Inr True"
    by simp
  from held carries uncovered
    hasOverUser_scope [of example_db "user7\<lparr>orgUnit := Some 1\<rparr>" "''org_update''" "OfficerID 5"]
  have chain: "hasOverUser example_db (user7\<lparr>orgUnit := Some 1\<rparr>) ''org_update'' (OfficerID 5)
        = Inl (Error ''Officer not found in chain'')"
    by simp
  from held carries regional
    hasOverUser_scope [of example_db "user7\<lparr>orgUnit := None\<rparr>" "''org_update''" "OfficerID 5"]
  have national: "hasOverUser example_db (user7\<lparr>orgUnit := None\<rparr>) ''org_update'' (OfficerID 5)
        = Inl (Error ''Not national officer'')"
    by simp
  from none hasOverUser_scope [of example_db user7 "''org_update''" "OfficerID 9"]
  have no_office: "hasOverUser example_db user7 ''org_update'' (OfficerID 9)
        = Inl (Error ''User has no offices'')"
    by simp
  from held carries unit covered granted uncovered chain regional national none no_office
    other lacks ungranted
  show ?thesis by simp
qed

text \<open>
  C9 as the spec words it fails for an officer who holds no office: the user has a unit,
  nothing grants, and the failure is the one of \<open>has\<close>.
\<close>

theorem hasOverUser_no_office_counterexample:
  "orgUnit user7 = Some 3
   \<and> normalizeOfficer example_db (OfficerID 9) = None
   \<and> hasOverUser example_db user7 ''org_update'' (OfficerID 9)
       = Inl (Error ''User has no offices'')
   \<and> hasOverUser example_db user7 ''org_update'' (OfficerID 9)
       \<noteq> Inl (Error ''Officer not found in chain'')"
  by code_simp


section \<open>The permission helper: the office chain\<close>

lemma has_resolved:
  assumes "has st permission officer = Inr granting"
  shows "has st permission (Resolved granting) = Inr granting"
proof -
  from assms obtain held where "granting = filter (carries permission) held"
    by (auto simp: has_result split: option.splits)
  then show ?thesis
    by (simp add: has_result normalizeOfficer_def)
qed

lemma has_cases:
  "has st permission officer = Inl (Error ''User has no offices'')
   \<or> (\<exists>granting. has st permission officer = Inr granting)"
  by (simp add: has_result split: option.splits)

lemma fetch_office_Some:
  "fetch_office st i = Some m \<Longrightarrow> m \<in> set (offices st) \<and> office_id m = i"
  by (auto simp: fetch_office_def find_Some_iff)

lemma hasOverOffice_id_stops:
  assumes acyc: "acyclic_chain st rank"
  shows "\<exists>y. hasOverOffice st (OfficeID i) permission officer = Some y \<and> stop_result y"
proof (induction "rank i" arbitrary: i officer rule: less_induct)
  case less
  show ?case
  proof (cases "fetch_office st i")
    case None
    then show ?thesis
      by (subst hasOverOffice.simps) (simp add: stop_result_def)
  next
    case (Some m)
    note fetched = this
    then have m: "m \<in> set (offices st)" "office_id m = i"
      by (simp_all add: fetch_office_Some)
    show ?thesis
    proof (cases "parentOfficeID m")
      case None
      with fetched show ?thesis
        by (subst hasOverOffice.simps) (simp add: stop_result_def)
    next
      case (Some p)
      with m acyc have "rank p < rank i"
        by (auto simp: acyclic_chain_def split: option.splits)
      note IH = less [OF this]
      from has_cases [of st permission officer] show ?thesis
      proof
        assume "has st permission officer = Inl (Error ''User has no offices'')"
        with fetched Some show ?thesis
          by (subst hasOverOffice.simps) (simp add: stop_result_def)
      next
        assume "\<exists>granting. has st permission officer = Inr granting"
        then obtain granting where g: "has st permission officer = Inr granting" ..
        show ?thesis
        proof (cases "indexOf_found (mapCollection granting office_parentID) (office_id m)")
          case True
          with fetched Some g show ?thesis
            by (subst hasOverOffice.simps) (simp add: stop_result_def)
        next
          case False
          with fetched Some g IH [of "Resolved granting"] show ?thesis
            by (subst hasOverOffice.simps) simp
        qed
      qed
    qed
  qed
qed

lemma hasOverOffice_stops:
  assumes acyc: "acyclic_chain st rank"
  shows "\<exists>y. hasOverOffice st office permission officer = Some y \<and> stop_result y"
proof (cases office)
  case (OfficeID i)
  with hasOverOffice_id_stops [OF acyc] show ?thesis by simp
next
  case (OfficeModel m)
  show ?thesis
  proof (cases "parentOfficeID m")
    case None
    with OfficeModel show ?thesis
      by (subst hasOverOffice.simps) (simp add: stop_result_def)
  next
    case (Some p)
    from has_cases [of st permission officer] show ?thesis
    proof
      assume "has st permission officer = Inl (Error ''User has no offices'')"
      with OfficeModel Some show ?thesis
        by (subst hasOverOffice.simps) (simp add: stop_result_def)
    next
      assume "\<exists>granting. has st permission officer = Inr granting"
      then obtain granting where g: "has st permission officer = Inr granting" ..
      show ?thesis
      proof (cases "indexOf_found (mapCollection granting office_parentID) (office_id m)")
        case True
        with OfficeModel Some g show ?thesis
          by (subst hasOverOffice.simps) (simp add: stop_result_def)
      next
        case False
        with OfficeModel Some g
          hasOverOffice_id_stops [OF acyc, of p permission "Resolved granting"]
        show ?thesis
          by (subst hasOverOffice.simps) simp
      qed
    qed
  qed
qed

lemma hasOverOffice_cycle:
  assumes cyc: "unmatched_cycle st granting ids"
    and has: "has st permission officer = Inr granting"
    and i: "i \<in> set ids"
  shows "hasOverOffice st (OfficeID i) permission officer = None"
proof (rule ccontr)
  assume "hasOverOffice st (OfficeID i) permission officer \<noteq> None"
  then obtain y where y: "hasOverOffice st (OfficeID i) permission officer = Some y"
    by auto
  let ?P = "\<lambda>st' office perm officer' (y :: error + bool).
      st' = st \<longrightarrow> perm = permission \<longrightarrow> has st permission officer' = Inr granting
        \<longrightarrow> (\<forall>j. office = OfficeID j \<longrightarrow> j \<notin> set ids)"
  have "?P st (OfficeID i) permission officer y"
  proof (rule hasOverOffice.raw_induct [where P = ?P, OF _ y])
    fix f st' office perm officer' r
    assume IH: "\<And>st' office perm officer' r. f st' office perm officer' = Some r
                  \<Longrightarrow> ?P st' office perm officer' r"
    assume step: "(case (case office of
              OfficeID i \<Rightarrow>
                (case fetch_office st' i of
                   None \<Rightarrow> Inl (UserError ''Office not found.'' 404)
                 | Some m \<Rightarrow> Inr m)
            | OfficeModel m \<Rightarrow> Inr m) of
        Inl e \<Rightarrow> Some (Inl e)
      | Inr m \<Rightarrow>
          (case parentOfficeID m of
             None \<Rightarrow> Some (Inl (Error ''Office not in chain''))
           | Some parent \<Rightarrow>
               (case has st' perm officer' of
                  Inl e \<Rightarrow> Some (Inl e)
                | Inr granting \<Rightarrow>
                    (let officeParents = mapCollection granting office_parentID
                     in if indexOf_found officeParents (office_id m) then Some (Inr True)
                        else f st' (OfficeID parent) perm (Resolved granting)))))
       = Some r"
    show "?P st' office perm officer' r"
    proof (intro impI allI)
      fix j
      assume eqs: "st' = st" "perm = permission"
        and g: "has st permission officer' = Inr granting"
        and office: "office = OfficeID j"
      show "j \<notin> set ids"
      proof
        assume j: "j \<in> set ids"
        with cyc have on_cycle: "case fetch_office st j of
            None \<Rightarrow> False
          | Some m \<Rightarrow>
              (case parentOfficeID m of None \<Rightarrow> False | Some p \<Rightarrow> p \<in> set ids)
              \<and> \<not> indexOf_found (mapCollection granting office_parentID) (office_id m)"
          unfolding unmatched_cycle_def by (rule bspec)
        then obtain m where m: "fetch_office st j = Some m"
          by (cases "fetch_office st j") auto
        with on_cycle obtain p where p: "parentOfficeID m = Some p" "p \<in> set ids"
          by (cases "parentOfficeID m") auto
        from on_cycle m
        have nomatch: "\<not> indexOf_found (mapCollection granting office_parentID) (office_id m)"
          by simp
        from step eqs g office m p nomatch
        have "f st (OfficeID p) permission (Resolved granting) = Some r"
          by simp
        from IH [OF this] has_resolved [OF g] p(2) show False
          by simp
      qed
    qed
  qed
  with has i show False by simp
qed

lemma matches_found:
  "indexOf_found (mapCollection (filter (carries permission) held) office_parentID) (office_id m)
     \<longleftrightarrow> matches permission held m"
  by (force simp: indexOf_found_def mapCollection_def matches_def)

lemma walk_returns:
  assumes "walk st permission office officer y"
  shows "hasOverOffice st office permission officer = Some y"
  using assms
proof (induction rule: walk.induct)
  case (not_stored i officer)
  then show ?case by (subst hasOverOffice.simps) simp
next
  case (stored i m officer y)
  from stored.IH have "hasOverOffice st (OfficeModel m) permission officer = Some y" .
  then have "(case parentOfficeID m of
           None \<Rightarrow> Some (Inl (Error ''Office not in chain''))
         | Some parent \<Rightarrow>
             (case has st permission officer of
                Inl e \<Rightarrow> Some (Inl e)
              | Inr granting \<Rightarrow>
                  (let officeParents = mapCollection granting office_parentID
                   in if indexOf_found officeParents (office_id m) then Some (Inr True)
                      else hasOverOffice st (OfficeID parent) permission (Resolved granting))))
          = Some y"
    by (subst (asm) hasOverOffice.simps) simp
  with stored.hyps show ?case by (subst hasOverOffice.simps) simp
next
  case (not_in_chain m officer)
  then show ?case by (subst hasOverOffice.simps) simp
next
  case (no_offices m p officer)
  then show ?case by (subst hasOverOffice.simps) (simp add: has_result)
next
  case (granted m p officer held)
  then show ?case by (subst hasOverOffice.simps) (simp add: has_result matches_found)
next
  case (parent m p officer held y)
  then show ?case by (subst hasOverOffice.simps) (simp add: has_result matches_found)
qed

lemma returns_walk:
  assumes "hasOverOffice st office permission officer = Some y"
  shows "walk st permission office officer y"
proof -
  let ?P = "\<lambda>st' office perm officer (y :: error + bool).
      st' = st \<longrightarrow> perm = permission \<longrightarrow> walk st permission office officer y"
  have "?P st office permission officer y"
  proof (rule hasOverOffice.raw_induct [where P = ?P, OF _ assms])
    fix f st' office perm officer r
    assume IH: "\<And>st' office perm officer r. f st' office perm officer = Some r
                  \<Longrightarrow> ?P st' office perm officer r"
    assume step: "(case (case office of
              OfficeID i \<Rightarrow>
                (case fetch_office st' i of
                   None \<Rightarrow> Inl (UserError ''Office not found.'' 404)
                 | Some m \<Rightarrow> Inr m)
            | OfficeModel m \<Rightarrow> Inr m) of
        Inl e \<Rightarrow> Some (Inl e)
      | Inr m \<Rightarrow>
          (case parentOfficeID m of
             None \<Rightarrow> Some (Inl (Error ''Office not in chain''))
           | Some parent \<Rightarrow>
               (case has st' perm officer of
                  Inl e \<Rightarrow> Some (Inl e)
                | Inr granting \<Rightarrow>
                    (let officeParents = mapCollection granting office_parentID
                     in if indexOf_found officeParents (office_id m) then Some (Inr True)
                        else f st' (OfficeID parent) perm (Resolved granting)))))
       = Some r"
    show "?P st' office perm officer r"
    proof (intro impI)
      assume eqs: "st' = st" "perm = permission"
      note step = step [unfolded eqs]
      have model: "walk st permission (OfficeModel m) officer r"
        if m: "(case parentOfficeID m of
           None \<Rightarrow> Some (Inl (Error ''Office not in chain''))
         | Some parent \<Rightarrow>
             (case has st permission officer of
                Inl e \<Rightarrow> Some (Inl e)
              | Inr granting \<Rightarrow>
                  (let officeParents = mapCollection granting office_parentID
                   in if indexOf_found officeParents (office_id m) then Some (Inr True)
                      else f st (OfficeID parent) permission (Resolved granting))))
          = Some r" for m
      proof (cases "parentOfficeID m")
        case None
        with m show ?thesis by (auto intro: walk.not_in_chain)
      next
        case (Some p)
        show ?thesis
        proof (cases "normalizeOfficer st officer")
          case None
          with m Some show ?thesis by (auto simp: has_result intro: walk.no_offices)
        next
          case (Some held)
          note held = this
          show ?thesis
          proof (cases "matches permission held m")
            case True
            with m \<open>parentOfficeID m = Some p\<close> held show ?thesis
              by (auto simp: has_result matches_found intro: walk.granted)
          next
            case False
            with m \<open>parentOfficeID m = Some p\<close> held
            have "f st (OfficeID p) permission (Resolved (filter (carries permission) held)) = Some r"
              by (simp add: has_result matches_found)
            from IH [OF this]
            have "walk st permission (OfficeID p) (Resolved (filter (carries permission) held)) r"
              by simp
            with \<open>parentOfficeID m = Some p\<close> held False show ?thesis
              by (rule walk.parent)
          qed
        qed
      qed
      show "walk st permission office officer r"
      proof (cases office)
        case (OfficeID i)
        show ?thesis
        proof (cases "fetch_office st i")
          case None
          with step OfficeID show ?thesis by (auto intro: walk.not_stored)
        next
          case (Some m)
          with step OfficeID have "walk st permission (OfficeModel m) officer r"
            by (intro model) simp
          with Some OfficeID show ?thesis by (auto intro: walk.stored)
        qed
      next
        case (OfficeModel m)
        with step have "walk st permission (OfficeModel m) officer r"
          by (intro model) simp
        with OfficeModel show ?thesis by simp
      qed
    qed
  qed
  then show ?thesis by simp
qed

text \<open>
  C3, amended. \<open>hasOverOffice\<close> returns exactly when the walk up the chain reaches a
  stop, and then with the result of that stop: true at the first office on the way that
  has a parent office and is the \<open>parentID\<close> of a granting office, "Office not in chain"
  at an office without a parent office, the 404 at an office id that is not stored, and
  "User has no offices" for an officer who holds none. So it returns whenever the
  \<open>parentOfficeID\<close> links of the stored offices are acyclic, and also on a cycle that a
  granting office matches. On a cycle of offices none of which is matched by a granting
  office it never returns: the code has no cycle guard.
\<close>

theorem hasOverOffice_termination:
  "(hasOverOffice st office permission officer = Some y
      \<longleftrightarrow> walk st permission office officer y)
   \<and> (acyclic_chain st rank \<longrightarrow>
        (\<exists>r. hasOverOffice st office permission officer = Some r \<and> stop_result r))
   \<and> (unmatched_cycle st granting ids \<and> has st permission officer = Inr granting
        \<and> i \<in> set ids \<longrightarrow>
        hasOverOffice st (OfficeID i) permission officer = None)"
proof (intro conjI impI)
  show "hasOverOffice st office permission officer = Some y
          \<longleftrightarrow> walk st permission office officer y"
    using walk_returns returns_walk by blast
next
  assume "acyclic_chain st rank"
  then show "\<exists>r. hasOverOffice st office permission officer = Some r \<and> stop_result r"
    by (rule hasOverOffice_stops)
next
  assume "unmatched_cycle st granting ids \<and> has st permission officer = Inr granting
            \<and> i \<in> set ids"
  then show "hasOverOffice st (OfficeID i) permission officer = None"
    by (auto intro: hasOverOffice_cycle)
qed

lemma cycle_db_unmatched: "unmatched_cycle cycle_db [office20] [1, 2]"
  by code_simp

lemma cycle_db_has: "has cycle_db ''office_update'' (OfficerID 5) = Inr [office20]"
  by code_simp

text \<open>
  C3 as the spec words it fails on the cycle 1 \<rightarrow> 2 \<rightarrow> 1: the call does not return, with
  a cycle error or otherwise.
\<close>

theorem hasOverOffice_cycle_counterexample:
  "hasOverOffice cycle_db (OfficeID 1) ''office_update'' (OfficerID 5) = None"
  by (rule hasOverOffice_cycle [OF cycle_db_unmatched cycle_db_has]) simp

text \<open>
  The spec's chain 1 \<rightarrow> 2 \<rightarrow> 3, resolved from office 1 by an officer whose office matches
  office 3; the same walk from office 4, which has no parent office; the cycle 1 \<rightarrow> 2 \<rightarrow> 1
  before an officer whose office matches office 2; and the unmatched cycle.
\<close>

lemma chain_db_acyclic: "acyclic_chain chain_db (\<lambda>i. 10 - i)"
  by code_simp

theorem hasOverOffice_termination_witness:
  "acyclic_chain chain_db (\<lambda>i. 10 - i)
   \<and> hasOverOffice chain_db (OfficeID 1) ''office_update'' (OfficerID 5) = Some (Inr True)
   \<and> walk chain_db ''office_update'' (OfficeID 1) (OfficerID 5) (Inr True)
   \<and> walk chain_db ''office_update'' (OfficeID 4) (OfficerID 5)
        (Inl (Error ''Office not in chain''))
   \<and> walk cycle_db ''office_update'' (OfficeID 1)
        (Resolved [office20\<lparr>office_parentID := Some 2\<rparr>]) (Inr True)
   \<and> unmatched_cycle cycle_db [office20] [1, 2]
   \<and> has cycle_db ''office_update'' (OfficerID 5) = Inr [office20]
   \<and> hasOverOffice cycle_db (OfficeID 1) ''office_update'' (OfficerID 5) = None"
proof -
  have run: "hasOverOffice chain_db (OfficeID 1) ''office_update'' (OfficerID 5) = Some (Inr True)"
    and top: "hasOverOffice chain_db (OfficeID 4) ''office_update'' (OfficerID 5)
                = Some (Inl (Error ''Office not in chain''))"
    and matched: "hasOverOffice cycle_db (OfficeID 1) ''office_update''
                    (Resolved [office20\<lparr>office_parentID := Some 2\<rparr>]) = Some (Inr True)"
    by code_simp+
  from run hasOverOffice_termination [of chain_db "OfficeID 1" "''office_update''" "OfficerID 5"]
  have walk1: "walk chain_db ''office_update'' (OfficeID 1) (OfficerID 5) (Inr True)"
    by blast
  from top hasOverOffice_termination [of chain_db "OfficeID 4" "''office_update''" "OfficerID 5"]
  have walk4: "walk chain_db ''office_update'' (OfficeID 4) (OfficerID 5)
        (Inl (Error ''Office not in chain''))"
    by blast
  from matched hasOverOffice_termination [of cycle_db "OfficeID 1" "''office_update''"
      "Resolved [office20\<lparr>office_parentID := Some 2\<rparr>]"]
  have walk_cycle: "walk cycle_db ''office_update'' (OfficeID 1)
        (Resolved [office20\<lparr>office_parentID := Some 2\<rparr>]) (Inr True)"
    by blast
  have one: "(1::nat) \<in> set [1, 2]" by simp
  from cycle_db_unmatched cycle_db_has one
    hasOverOffice_termination [of cycle_db "OfficeID 1" "''office_update''" "OfficerID 5" _ _
      "[office20]" "[1, 2]" 1]
  have loops: "hasOverOffice cycle_db (OfficeID 1) ''office_update'' (OfficerID 5) = None"
    by blast
  from chain_db_acyclic
    hasOverOffice_termination [of chain_db "OfficeID 1" "''office_update''" "OfficerID 5" _
      "\<lambda>i. 10 - i"]
  have "\<exists>r. hasOverOffice chain_db (OfficeID 1) ''office_update'' (OfficerID 5) = Some r"
    by blast
  with chain_db_acyclic run walk1 walk4 walk_cycle cycle_db_unmatched cycle_db_has loops
  show ?thesis by simp
qed

section \<open>The search route\<close>









section \<open>The update route\<close>

text \<open>
  The test \<open>NaN !== Number.parseInt(id)\<close> holds for every argument, so the lookup is
  always by id and the branch that looks a code up is dead.
\<close>

lemma put_lookup_by_id: "put_lookup st ident = fetch_where_id st (parseInt ident)"
  by (simp add: put_lookup_def)

text \<open>
  C8 (the code at the failing input). The Domain 3 has the code NY-004. Addressed by
  that code the update looks for the id \<open>NaN\<close> and answers 404.
\<close>

theorem router_put_by_code_not_found:
  "parseInt ''NY-004'' = NaN
   \<and> fetch_where_code example_db ''NY-004'' = Some domain3
   \<and> put_lookup example_db ''NY-004'' = None
   \<and> router_put any_url example_db ''NY-004'' domain_body 5
        = (Inl (UserError ''Org unit not found'' 404), example_db)"
  by code_simp

section \<open>The create route\<close>

text \<open>
  C7 (the code at the failing inputs). A well-formed Venue under the Domain 3, by an
  officer who may create venues: the statement that makes \<open>venueType\<close> required names
  the undeclared \<open>contraints\<close>, throws, and the route answers 403. A Domain with an
  empty name: the validation rejects it with a 400, and the \<open>catch\<close> after the
  transaction turns that into a 500.
\<close>

theorem router_post_validation_failures:
  "router_post any_url example_db venue_body 5
     = (Inl (UserError ''Authentication failed'' 403), example_db)
   \<and> validate_create any_url (domain_body\<lparr>b_name := Some '''', b_parentPath := Some ''1.2.''\<rparr>) = None
   \<and> router_post any_url example_db (domain_body\<lparr>b_name := Some ''''\<rparr>) 5
     = (Inl (UserError ''There was an error creating the org unit'' 500), example_db)"
  by code_simp


text \<open>
  What a create leaves behind. Each step of the route either fails and leaves the tables
  as they were, or appends the new row with its path already completed.
\<close>

lemma dot_join_snoc: "ids \<noteq> [] \<Longrightarrow> dot_join (ids @ [i]) = dot_join ids @ ''.'' @ show_nat i"
  by (induction ids rule: dot_join.induct) simp_all

lemma map_other_ids:
  "i \<notin> set (map unit_id xs) \<Longrightarrow> map (\<lambda>v. if unit_id v = i then u1 else v) xs = xs"
  by (induction xs) auto

lemma save_unit_new:
  assumes "unit_id u \<notin> set (map unit_id (units st))" and "unit_id u1 = unit_id u"
  shows "save_unit (st\<lparr>units := units st @ [u]\<rparr>) u1 = st\<lparr>units := units st @ [u1]\<rparr>"
proof -
  from assms have "map (\<lambda>v. if unit_id v = unit_id u1 then u1 else v) (units st) = units st"
    by (simp add: map_other_ids)
  with assms(2) show ?thesis by (simp add: save_unit_def)
qed

lemma insert_unit_Some:
  assumes "insert_unit st a = Some (u, st1)"
  shows "st1 = st\<lparr>units := units st @ [u]\<rparr> \<and> unit_id u \<notin> set (map unit_id (units st))
         \<and> parentPath u = b_parentPath a"
  using assms by (auto simp: insert_unit_def Let_def split: if_splits)

lemma create_transaction_Inl:
  assumes "create_transaction st a = (Inl err, st')"
  shows "st' = st"
proof (cases "insert_unit st a")
  case None
  with assms show ?thesis by (simp add: create_transaction_def)
next
  case (Some r)
  obtain u0 st1 where "r = (u0, st1)" by (cases r)
  with assms Some show ?thesis by (simp add: create_transaction_def Let_def)
qed

lemma create_transaction_Inr:
  assumes "create_transaction st a = (Inr u, st')"
  shows "st' = st\<lparr>units := units st @ [u]\<rparr>
         \<and> parentPath u = Some (js_str (b_parentPath a) @ show_nat (unit_id u))"
proof (cases "insert_unit st a")
  case None
  with assms show ?thesis by (simp add: create_transaction_def)
next
  case (Some r)
  obtain u0 st1 where r: "r = (u0, st1)" by (cases r)
  from Some r insert_unit_Some [of st a u0 st1]
  have st1: "st1 = st\<lparr>units := units st @ [u0]\<rparr>"
    and fresh: "unit_id u0 \<notin> set (map unit_id (units st))"
    by simp_all
  let ?u1 = "u0\<lparr>parentPath := Some (js_str (b_parentPath a) @ show_nat (unit_id u0))\<rparr>"
  from assms Some r have u: "u = ?u1" and st': "st' = save_unit st1 ?u1"
    by (auto simp: create_transaction_def Let_def)
  from fresh have "save_unit (st\<lparr>units := units st @ [u0]\<rparr>) ?u1 = st\<lparr>units := units st @ [?u1]\<rparr>"
    by (intro save_unit_new) simp_all
  with u st' st1 show ?thesis by simp
qed

lemma promise_catch_Inr: "promise_catch handler r = (Inr v, st') \<longleftrightarrow> r = (Inr v, st')"
  by (cases r, cases "fst r") (auto simp: promise_catch_def)

lemma promise_catch_Inl:
  "promise_catch handler r = (Inl err, st') \<longleftrightarrow> (\<exists>e. r = (Inl e, st') \<and> err = handler e)"
  by (cases r, cases "fst r") (auto simp: promise_catch_def)

lemma create_validate_save_Inl:
  assumes "create_validate_save url st data = (Inl err, st')"
  shows "st' = st"
proof (cases "b_type data = Some ''Venue''")
  case True
  with assms show ?thesis by (simp add: create_validate_save_def)
next
  case False
  show ?thesis
  proof (cases "validate_create url data")
    case None
    with assms False show ?thesis
      by (simp add: create_validate_save_def promise_catch_def)
  next
    case (Some a)
    with assms False obtain e where "create_transaction st a = (Inl e, st')"
      by (auto simp: create_validate_save_def promise_catch_Inl)
    then show ?thesis by (rule create_transaction_Inl)
  qed
qed

lemma create_validate_save_Inr:
  assumes "create_validate_save url st data = (Inr u, st')"
  shows "st' = st\<lparr>units := units st @ [u]\<rparr>
         \<and> parentPath u = Some (js_str (b_parentPath data) @ show_nat (unit_id u))"
proof -
  from assms have venue: "b_type data \<noteq> Some ''Venue''"
    by (auto simp: create_validate_save_def)
  with assms have run: "(case validate_create url data of
             None \<Rightarrow> (Inl (UserError ''Invalid data provided'' 400), st)
           | Some attributes \<Rightarrow> create_transaction st attributes) = (Inr u, st')"
    by (simp add: create_validate_save_def promise_catch_Inr)
  then obtain a where a: "validate_create url data = Some a"
    and run: "create_transaction st a = (Inr u, st')"
    by (cases "validate_create url data") auto
  from a have "b_parentPath a = b_parentPath data"
    by (auto simp: validate_create_def split: if_splits)
  with create_transaction_Inr [OF run] show ?thesis by simp
qed

lemma create_chain_Inl:
  assumes "create_chain url st data parentID type officer = (Inl err, st')"
  shows "st' = st"
proof (cases "fetch_unit st parentID")
  case None
  with assms show ?thesis by (simp add: create_chain_def)
next
  case (Some parent)
  show ?thesis
  proof (cases "hasOverUnit st (UnitModel parent) (''org_create_'' @ toLowerCase type)
                  (OfficerID officer)")
    case (Inl e)
    with assms Some show ?thesis by (simp add: create_chain_def)
  next
    case (Inr ok)
    with assms Some show ?thesis
      by (auto simp: create_chain_def split: if_splits dest: create_validate_save_Inl)
  qed
qed

lemma create_chain_Inr:
  assumes "create_chain url st data parentID type officer = (Inr u, st')"
  shows "st' = st\<lparr>units := units st @ [u]\<rparr>
         \<and> (\<exists>parent. fetch_unit st parentID = Some parent
               \<and> parentPath u = Some (js_str (parentPath parent) @ ''.'' @ show_nat (unit_id u)))"
proof (cases "fetch_unit st parentID")
  case None
  with assms show ?thesis by (simp add: create_chain_def)
next
  case (Some parent)
  show ?thesis
  proof (cases "hasOverUnit st (UnitModel parent) (''org_create_'' @ toLowerCase type)
                  (OfficerID officer)")
    case (Inl e)
    with assms Some show ?thesis by (simp add: create_chain_def)
  next
    case (Inr ok)
    with assms Some
    have run: "create_validate_save url st
                (data\<lparr>b_parentPath := Some (js_str (parentPath parent) @ ''.'')\<rparr>) = (Inr u, st')"
      by (auto simp: create_chain_def split: if_splits)
    from create_validate_save_Inr [OF run] Some show ?thesis
      by (simp add: js_str_def)
  qed
qed

lemma router_post_cases:
  "(\<exists>m. router_post url st data officer = (Inl (UserError m 400), st))
   \<or> (\<exists>parentID type. b_parentID data = Some parentID
         \<and> router_post url st data officer
             = promise_catch final_catch (create_chain url st data parentID type officer))"
proof (cases "b_parentID data")
  case None
  then show ?thesis by (simp add: router_post_def)
next
  case (Some parentID)
  then show ?thesis
    by (cases "b_type data") (auto simp: router_post_def)
qed

lemma router_post_Inl:
  assumes "router_post url st data officer = (Inl err, st')"
  shows "st' = st"
proof -
  from router_post_cases [of url st data officer] show ?thesis
  proof (elim disjE exE conjE)
    fix m
    assume "router_post url st data officer = (Inl (UserError m 400), st)"
    with assms show ?thesis by simp
  next
    fix parentID type
    assume "router_post url st data officer
              = promise_catch final_catch (create_chain url st data parentID type officer)"
    with assms
    have "promise_catch final_catch (create_chain url st data parentID type officer) = (Inl err, st')"
      by simp
    then obtain e where "create_chain url st data parentID type officer = (Inl e, st')"
      unfolding promise_catch_Inl by blast
    then show ?thesis by (rule create_chain_Inl)
  qed
qed

lemma router_post_Inr:
  assumes "router_post url st data officer = (Inr u, st')"
  shows "st' = st\<lparr>units := units st @ [u]\<rparr>
         \<and> (\<exists>parentID parent. b_parentID data = Some parentID
               \<and> fetch_unit st parentID = Some parent
               \<and> parentPath u = Some (js_str (parentPath parent) @ ''.'' @ show_nat (unit_id u)))"
proof -
  from router_post_cases [of url st data officer] show ?thesis
  proof (elim disjE exE conjE)
    fix m
    assume "router_post url st data officer = (Inl (UserError m 400), st)"
    with assms show ?thesis by simp
  next
    fix parentID type
    assume pid: "b_parentID data = Some parentID"
      and "router_post url st data officer
              = promise_catch final_catch (create_chain url st data parentID type officer)"
    with assms
    have "promise_catch final_catch (create_chain url st data parentID type officer) = (Inr u, st')"
      by simp
    then have "create_chain url st data parentID type officer = (Inr u, st')"
      unfolding promise_catch_Inr .
    from create_chain_Inr [OF this] pid show ?thesis by blast
  qed
qed

text \<open>
  C6. A create that succeeds returns a unit whose \<open>parentPath\<close> is the parent's
  \<open>parentPath\<close>, a dot, and the unit's own id; when the parent's path is the dot-joined
  chain of its ancestors' ids and its own, the new path is that chain with the new id at
  the end. The insert and the write of the path are one transaction: the tables
  afterwards are the old ones with the finished row appended, and a create that fails
  leaves them unchanged.
\<close>

theorem router_post_parentPath:
  "case router_post url st data officer of
     (Inl err, st') \<Rightarrow> st' = st
   | (Inr u, st') \<Rightarrow>
       st' = st\<lparr>units := units st @ [u]\<rparr>
       \<and> (\<exists>parentID parent. b_parentID data = Some parentID \<and> fetch_unit st parentID = Some parent
             \<and> parentPath u = Some (js_str (parentPath parent) @ ''.'' @ show_nat (unit_id u))
             \<and> (\<forall>ids. ids \<noteq> [] \<and> parentPath parent = Some (dot_join ids)
                   \<longrightarrow> parentPath u = Some (dot_join (ids @ [unit_id u]))))"
proof -
  obtain r st' where res: "router_post url st data officer = (r, st')"
    by (cases "router_post url st data officer")
  show ?thesis
  proof (cases r)
    case (Inl err)
    with res have "st' = st" by (simp add: router_post_Inl)
    then show ?thesis unfolding res Inl by simp
  next
    case (Inr u)
    with res have run: "router_post url st data officer = (Inr u, st')" by simp
    from router_post_Inr [OF run]
    obtain parentID parent where st': "st' = st\<lparr>units := units st @ [u]\<rparr>"
      and pid: "b_parentID data = Some parentID" and parent: "fetch_unit st parentID = Some parent"
      and path: "parentPath u = Some (js_str (parentPath parent) @ ''.'' @ show_nat (unit_id u))"
      by blast
    have joined: "\<forall>ids. ids \<noteq> [] \<and> parentPath parent = Some (dot_join ids)
                   \<longrightarrow> parentPath u = Some (dot_join (ids @ [unit_id u]))"
      using path by (simp add: dot_join_snoc js_str_def)
    from pid parent path joined
    have "\<exists>parentID parent. b_parentID data = Some parentID \<and> fetch_unit st parentID = Some parent
             \<and> parentPath u = Some (js_str (parentPath parent) @ ''.'' @ show_nat (unit_id u))
             \<and> (\<forall>ids. ids \<noteq> [] \<and> parentPath parent = Some (dot_join ids)
                   \<longrightarrow> parentPath u = Some (dot_join (ids @ [unit_id u])))"
      by blast
    with st' show ?thesis unfolding run by simp
  qed
qed

text \<open>User 5 creates a Domain under the Region 2; it gets the id 4 and the path 1.2.4.\<close>

theorem router_post_parentPath_witness:
  "router_post any_url example_db domain_body 5
     = (Inr \<lparr>unit_id = 4, code = Some ''NY-010'', name = Some ''Buffalo'',
              unit_type = Some ''Domain'', unit_parentID = None, parentPath = Some ''1.2.4'',
              lft = None, rgt = None, venueType = None, location = None, defDoc = None,
              website = None\<rparr>,
        example_db\<lparr>units := units example_db
          @ [\<lparr>unit_id = 4, code = Some ''NY-010'', name = Some ''Buffalo'',
               unit_type = Some ''Domain'', unit_parentID = None, parentPath = Some ''1.2.4'',
               lft = None, rgt = None, venueType = None, location = None, defDoc = None,
               website = None\<rparr>]\<rparr>)
   \<and> fetch_unit example_db 2 = Some region2
   \<and> parentPath region2 = Some (dot_join [1, 2])
   \<and> ''1.2.4'' = js_str (parentPath region2) @ ''.'' @ show_nat 4
   \<and> ''1.2.4'' = dot_join ([1, 2] @ [4])"
proof -
  have run: "router_post any_url example_db domain_body 5
     = (Inr \<lparr>unit_id = 4, code = Some ''NY-010'', name = Some ''Buffalo'',
              unit_type = Some ''Domain'', unit_parentID = None, parentPath = Some ''1.2.4'',
              lft = None, rgt = None, venueType = None, location = None, defDoc = None,
              website = None\<rparr>,
        example_db\<lparr>units := units example_db
          @ [\<lparr>unit_id = 4, code = Some ''NY-010'', name = Some ''Buffalo'',
               unit_type = Some ''Domain'', unit_parentID = None, parentPath = Some ''1.2.4'',
               lft = None, rgt = None, venueType = None, location = None, defDoc = None,
               website = None\<rparr>]\<rparr>)"
    by code_simp
  have parent: "fetch_unit example_db 2 = Some region2"
    and path: "parentPath region2 = Some (dot_join [1, 2])"
    and new: "''1.2.4'' = js_str (parentPath region2) @ ''.'' @ show_nat 4"
    and joined: "''1.2.4'' = dot_join ([1, 2] @ [4])"
    by code_simp+
  from run parent path new joined router_post_parentPath [where url = any_url and st = example_db and data = domain_body
      and officer = 5]
  show ?thesis by simp
qed


section \<open>The delete route\<close>

text \<open>
  The route addresses the unit by the number its argument parses to; the root is refused
  before any lookup, and the permission is checked before the children are counted. A
  delete that fails leaves the tables as they were.
\<close>

lemma delete_chain_fails_unchanged:
  "delete_chain st u officer = (Inl err, st') \<Longrightarrow> st' = st"
  by (auto simp: delete_chain_def delete_transaction_def
      split: option.splits sum.splits if_splits)

lemma router_delete_found:
  assumes "fetch_where_id st (parseInt ident) = Some u" and "parseInt ident \<noteq> Num 1"
  shows "router_delete st ident officer = promise_catch final_catch (delete_chain st u officer)"
proof -
  from assms(1) obtain n where "parseInt ident = Num n"
    by (cases "parseInt ident") (simp_all add: fetch_where_id_def)
  with assms show ?thesis
    by (simp add: router_delete_def Let_def)
qed

lemma router_delete_fails_unchanged:
  assumes "router_delete st ident officer = (Inl err, st')"
  shows "st' = st"
proof (cases "parseInt ident = Num 1")
  case True
  with assms show ?thesis by (simp add: router_delete_def Let_def)
next
  case False
  show ?thesis
  proof (cases "fetch_where_id st (parseInt ident)")
    case None
    have "strict_neq NaN (parseInt ident)" by simp
    with assms False None show ?thesis
      by (simp add: router_delete_def Let_def)
  next
    case (Some u)
    from router_delete_found [OF Some False] assms
    have "promise_catch final_catch (delete_chain st u officer) = (Inl err, st')"
      by simp
    then obtain e where "delete_chain st u officer = (Inl e, st')"
      unfolding promise_catch_Inl by blast
    then show ?thesis by (rule delete_chain_fails_unchanged)
  qed
qed

text \<open>Over a fetched unit the permission check grants or fails with a plain error.\<close>

lemma hasOverUnit_model_cases:
  "hasOverUnit st (UnitModel u) permission officer = Inr True
   \<or> (\<exists>m. hasOverUnit st (UnitModel u) permission officer = Inl (Error m))"
proof -
  have "resolve_unit st (UnitModel u) = Inr u"
    by (simp add: resolve_unit_def)
  then show ?thesis
    unfolding hasOverUnit_result by (simp split: option.splits)
qed

lemma delete_chain_children:
  assumes "getChildren st u \<noteq> []"
  shows "(may_delete st u officer \<longrightarrow>
            delete_chain st u officer = (Inl (UserError ''Cannot delete org with children'' 500), st))
         \<and> (\<not> may_delete st u officer \<longrightarrow>
            (\<exists>m. delete_chain st u officer = (Inl (Error m), st)))"
proof (cases "unit_type u")
  case None
  then show ?thesis by (simp add: delete_chain_def may_delete_def)
next
  case (Some t)
  from hasOverUnit_model_cases [of st u "''org_create_'' @ toLowerCase t" "OfficerID officer"]
  show ?thesis
  proof
    assume "hasOverUnit st (UnitModel u) (''org_create_'' @ toLowerCase t) (OfficerID officer)
              = Inr True"
    with Some assms show ?thesis by (simp add: delete_chain_def may_delete_def)
  next
    assume "\<exists>m. hasOverUnit st (UnitModel u) (''org_create_'' @ toLowerCase t) (OfficerID officer)
              = Inl (Error m)"
    then obtain m where "hasOverUnit st (UnitModel u) (''org_create_'' @ toLowerCase t)
                           (OfficerID officer) = Inl (Error m)" ..
    with Some show ?thesis by (simp add: delete_chain_def may_delete_def)
  qed
qed

text \<open>
  C4, amended. The delete of a unit that has a child always fails and writes nothing:
  no office is deleted, no user is reassigned, no unit row changes. The failure is
  "Cannot delete root org" for the root, else the 403 of the permission check for an
  officer who does not hold the delete permission over the unit, else "Cannot delete org
  with children".
\<close>

theorem router_delete_with_children:
  assumes "fetch_where_id st (parseInt ident) = Some u" and "getChildren st u \<noteq> []"
  shows "router_delete st ident officer =
     (if parseInt ident = Num 1 then (Inl (UserError ''Cannot delete root org'' 500), st)
      else if may_delete st u officer
      then (Inl (UserError ''Cannot delete org with children'' 500), st)
      else (Inl (UserError ''Authentication failed'' 403), st))"
proof (cases "parseInt ident = Num 1")
  case True
  then show ?thesis by (simp add: router_delete_def Let_def)
next
  case False
  note found = router_delete_found [OF assms(1) False, of officer]
  show ?thesis
  proof (cases "may_delete st u officer")
    case True
    with delete_chain_children [OF assms(2), of officer]
    have "delete_chain st u officer = (Inl (UserError ''Cannot delete org with children'' 500), st)"
      by simp
    with found False True show ?thesis
      by (simp add: promise_catch_def final_catch_def)
  next
    case no: False
    with delete_chain_children [OF assms(2), of officer]
    obtain m where "delete_chain st u officer = (Inl (Error m), st)"
      by blast
    with found False no show ?thesis
      by (simp add: promise_catch_def final_catch_def)
  qed
qed

text \<open>
  The Region 2 has the Domain 3 below it. User 5 may delete regions there and user 6 may
  not; the Nation is the root.
\<close>

theorem router_delete_with_children_witness:
  "fetch_where_id example_db (parseInt ''2'') = Some region2
   \<and> getChildren example_db region2 = [domain3]
   \<and> parseInt ''2'' = Num 2 \<and> may_delete example_db region2 5
   \<and> router_delete example_db ''2'' 5
       = (Inl (UserError ''Cannot delete org with children'' 500), example_db)
   \<and> \<not> may_delete example_db region2 6
   \<and> router_delete example_db ''2'' 6
       = (Inl (UserError ''Authentication failed'' 403), example_db)
   \<and> fetch_where_id example_db (parseInt ''1'') = Some nation1
   \<and> getChildren example_db nation1 = [region2, domain3]
   \<and> parseInt ''1'' = Num 1
   \<and> router_delete example_db ''1'' 5
       = (Inl (UserError ''Cannot delete root org'' 500), example_db)"
proof -
  have found: "fetch_where_id example_db (parseInt ''2'') = Some region2"
    and children: "getChildren example_db region2 = [domain3]"
    and ident: "parseInt ''2'' = Num 2"
    and may: "may_delete example_db region2 5"
    and may_not: "\<not> may_delete example_db region2 6"
    and root: "fetch_where_id example_db (parseInt ''1'') = Some nation1"
    and below: "getChildren example_db nation1 = [region2, domain3]"
    and one: "parseInt ''1'' = Num 1"
    by code_simp+
  from children have ne: "getChildren example_db region2 \<noteq> []" by simp
  from below have ne1: "getChildren example_db nation1 \<noteq> []" by simp
  from router_delete_with_children [OF found ne, of 5] ident may
  have r5: "router_delete example_db ''2'' 5
       = (Inl (UserError ''Cannot delete org with children'' 500), example_db)"
    by simp
  from router_delete_with_children [OF found ne, of 6] ident may_not
  have r6: "router_delete example_db ''2'' 6
       = (Inl (UserError ''Authentication failed'' 403), example_db)"
    by simp
  from router_delete_with_children [OF root ne1, of 5] one
  have r1: "router_delete example_db ''1'' 5
       = (Inl (UserError ''Cannot delete root org'' 500), example_db)"
    by simp
  from found children ident may r5 may_not r6 root below one r1 show ?thesis by simp
qed

text \<open>
  C4 as the spec words it fails in two ways: user 6 has no permission over the Region 2
  and gets the 403 of the permission check, and the root, which has children, is refused
  as the root.
\<close>

theorem router_delete_with_children_counterexample:
  "fetch_where_id example_db (parseInt ''2'') = Some region2
   \<and> getChildren example_db region2 = [domain3]
   \<and> router_delete example_db ''2'' 6
       = (Inl (UserError ''Authentication failed'' 403), example_db)
   \<and> fetch_unit example_db 1 = Some nation1
   \<and> getChildren example_db nation1 = [region2, domain3]
   \<and> router_delete example_db ''1'' 5
       = (Inl (UserError ''Cannot delete root org'' 500), example_db)"
  by code_simp

text \<open>
  What the delete of a leaf does, for a unit that is not the root and an officer who
  holds the delete permission over it. The parent is the last ancestor that
  \<open>parentPath\<close> names.
\<close>

lemma router_delete_leaf_result:
  assumes "fetch_where_id st (parseInt ident) = Some u" and "parseInt ident \<noteq> Num 1"
    and "may_delete st u officer" and "getChildren st u = []"
  shows "router_delete st ident officer =
     (if parents u = [] \<or> last (parents u) = 0
      then (Inl (UserError ''No parent found'' 500), st)
      else if filter (\<lambda>x. orgUnit x = Some (unit_id u)) (users st) = []
      then (Inl (UserError ''Authentication failed'' 403), st)
      else
        (Inr (),
         st\<lparr>offices := filter (\<lambda>c. parentOrgID c \<noteq> Some (unit_id u)) (offices st),
            users := map (\<lambda>x. if orgUnit x = Some (unit_id u)
                               then x\<lparr>orgUnit := Some (last (parents u))\<rparr> else x) (users st),
            units := filter (\<lambda>v. unit_id v \<noteq> unit_id u) (units st)\<rparr>))"
proof -
  from assms(3) obtain t where t: "unit_type u = Some t"
    and ok: "hasOverUnit st (UnitModel u) (''org_create_'' @ toLowerCase t) (OfficerID officer)
               = Inr True"
    by (auto simp: may_delete_def split: option.splits)
  with assms(4) have "delete_chain st u officer = delete_transaction st u"
    by (simp add: delete_chain_def)
  with router_delete_found [OF assms(1,2), of officer] show ?thesis
    by (simp add: promise_catch_def final_catch_def delete_transaction_def)
qed

text \<open>
  C5 (the code at the failing input). The Domain 3 is a leaf under the Region 2, it has
  no users, and user 5 holds the delete permission over it. The user update of the
  transaction matches no row and rejects, the transaction is rolled back, and the route
  answers 403: the offices of the unit and the unit itself stay.
\<close>

theorem router_delete_leaf_without_users:
  "fetch_where_id empty_leaf_db (parseInt ''3'') = Some domain3
   \<and> getChildren empty_leaf_db domain3 = []
   \<and> may_delete empty_leaf_db domain3 5
   \<and> parents domain3 = [1, 2]
   \<and> filter (\<lambda>x. orgUnit x = Some 3) (users empty_leaf_db) = []
   \<and> router_delete empty_leaf_db ''3'' 5
       = (Inl (UserError ''Authentication failed'' 403), empty_leaf_db)"
  by code_simp

text \<open>
  With users 6 and 7 in the Domain 3 the same delete goes through: office 11 goes, the
  two users move to the Region 2, and the Nation and the Region stay.
\<close>

lemma router_delete_leaf_with_users:
  "router_delete example_db ''3'' 5
     = (Inr (), \<lparr>offices = [office10], units = [nation1, region2],
                 users = [user5, user6\<lparr>orgUnit := Some 2\<rparr>, user7\<lparr>orgUnit := Some 2\<rparr>]\<rparr>)"
  by code_simp

end
